theory Spec2Isabelle
  imports Complex_Main "HOL-Library.Multiset"
begin

section \<open>JavaScript values used by the ranking crawler\<close>

text \<open>
  A JavaScript number is modelled by its mathematical value: a rational, one of the two
  infinities, or NaN. Arithmetic on finite values is exact (the rounding of IEEE doubles
  is not modelled, and there is no negative zero); what the model keeps is every place
  where a non-finite value appears: a division by zero gives an infinity or NaN, and
  every comparison with NaN is false.
\<close>

datatype jsnum = Num rat | PosInf | NegInf | NaN

fun js_lt :: "jsnum \<Rightarrow> jsnum \<Rightarrow> bool" where
  "js_lt (Num a) (Num b) = (a < b)"
| "js_lt (Num a) PosInf = True"
| "js_lt NegInf (Num b) = True"
| "js_lt NegInf PosInf = True"
| "js_lt _ _ = False"

definition js_gt :: "jsnum \<Rightarrow> jsnum \<Rightarrow> bool" where
  "js_gt a b = js_lt b a"

definition js_le :: "jsnum \<Rightarrow> jsnum \<Rightarrow> bool" where
  "js_le a b = (a \<noteq> NaN \<and> b \<noteq> NaN \<and> \<not> js_lt b a)"

definition js_ge :: "jsnum \<Rightarrow> jsnum \<Rightarrow> bool" where
  "js_ge a b = js_le b a"

fun js_neg :: "jsnum \<Rightarrow> jsnum" where
  "js_neg (Num a) = Num (- a)"
| "js_neg PosInf = NegInf"
| "js_neg NegInf = PosInf"
| "js_neg NaN = NaN"

fun js_add :: "jsnum \<Rightarrow> jsnum \<Rightarrow> jsnum" where
  "js_add (Num a) (Num b) = Num (a + b)"
| "js_add NaN _ = NaN"
| "js_add _ NaN = NaN"
| "js_add PosInf NegInf = NaN"
| "js_add NegInf PosInf = NaN"
| "js_add PosInf _ = PosInf"
| "js_add _ PosInf = PosInf"
| "js_add NegInf _ = NegInf"
| "js_add _ NegInf = NegInf"

definition js_sub :: "jsnum \<Rightarrow> jsnum \<Rightarrow> jsnum" where
  "js_sub a b = js_add a (js_neg b)"

fun js_div :: "jsnum \<Rightarrow> jsnum \<Rightarrow> jsnum" where
  "js_div (Num a) (Num b) =
     (if b = 0 then (if a = 0 then NaN else if 0 < a then PosInf else NegInf)
      else Num (a / b))"
| "js_div NaN _ = NaN"
| "js_div _ NaN = NaN"
| "js_div (Num a) _ = Num 0"
| "js_div PosInf (Num b) = (if b < 0 then NegInf else PosInf)"
| "js_div NegInf (Num b) = (if b < 0 then PosInf else NegInf)"
| "js_div _ _ = NaN"

text \<open>
  \<open>x.toFixed(d)\<close> prints \<open>x\<close> with \<open>d\<close> decimals, rounding the magnitude to the nearest
  multiple of \<open>10^-d\<close> and a tie upwards; from \<open>10^21\<close> on it prints the number itself.
  The model keeps the number that the printed text denotes, which is also what
  \<open>parseFloat\<close> reads back from it.
\<close>

definition toFixed_rat :: "nat \<Rightarrow> rat \<Rightarrow> rat" where
  "toFixed_rat d x =
     (if 10 ^ 21 \<le> \<bar>x\<bar> then x
      else sgn x * (of_int \<lfloor>\<bar>x\<bar> * 10 ^ d + 1 / 2\<rfloor> / 10 ^ d))"

fun toFixed :: "nat \<Rightarrow> jsnum \<Rightarrow> jsnum" where
  "toFixed d (Num x) = Num (toFixed_rat d x)"
| "toFixed d v = v"

text \<open>
  \<open>x.div(y).toNumber()\<close> on two \<open>BigNumber\<close>s, with the settings the library starts
  with: the quotient is rounded to 20 decimals, a tie away from zero; a division by zero
  gives an infinity or NaN.
\<close>

definition bignumber_div :: "rat \<Rightarrow> rat \<Rightarrow> jsnum" where
  "bignumber_div x y =
     (if y = 0 then (if x = 0 then NaN else if 0 < x then PosInf else NegInf)
      else Num (sgn (x / y) * (of_int \<lfloor>\<bar>x / y\<bar> * 10 ^ 20 + 1 / 2\<rfloor> / 10 ^ 20)))"

text \<open>
  Relational comparison of two strings: by code units, a proper prefix first.
\<close>

fun js_string_lt :: "string \<Rightarrow> string \<Rightarrow> bool" where
  "js_string_lt [] [] = False"
| "js_string_lt [] (y # ys) = True"
| "js_string_lt (x # xs) [] = False"
| "js_string_lt (x # xs) (y # ys) =
     (if x = y then js_string_lt xs ys else (of_char x :: nat) < of_char y)"

text \<open>
  Relational comparison of two plain objects (object literals without \<open>valueOf\<close> or
  \<open>toString\<close> of their own): each operand is converted to a primitive, \<open>valueOf\<close>
  returns the object itself, so \<open>Object.prototype.toString\<close> decides, and the two
  resulting strings are compared.
\<close>

definition toPrimitive_object :: "'a \<Rightarrow> string" where
  "toPrimitive_object obj = ''[object Object]''"

definition js_gt_object :: "'a \<Rightarrow> 'a \<Rightarrow> bool" where
  "js_gt_object a b = js_string_lt (toPrimitive_object b) (toPrimitive_object a)"

section \<open>Commission\<close>

text \<open>
  An entry of \<open>commissionHistory\<close>: \<open>{ era, commission }\<close>. The era is the decimal
  numeral of the era index and is kept as that number; the commission is the text of
  \<open>toFixed(2)\<close>, kept as the number it denotes, or \<open>null\<close>.
\<close>

record commission_entry =
  ce_era :: nat
  ce_commission :: "rat option"

text \<open>One element of \<open>erasPreferences\<close>: the era and the preferences of its validators,
  of which only the commission (in parts per billion) is read.\<close>

record era_prefs =
  ep_era :: nat
  ep_validators :: "string \<rightharpoonup> nat"

definition getCommissionHistory :: "string \<Rightarrow> era_prefs list \<Rightarrow> commission_entry list" where
  "getCommissionHistory accountId erasPreferences =
     foldl (\<lambda>commissionHistory p.
        (case ep_validators p accountId of
           Some c \<Rightarrow> commissionHistory @
             [\<lparr>ce_era = ep_era p, ce_commission = Some (toFixed_rat 2 (of_nat c / 10000000))\<rparr>]
         | None \<Rightarrow> commissionHistory @
             [\<lparr>ce_era = ep_era p, ce_commission = None\<rparr>]))
       [] erasPreferences"

definition getCommissionRating :: "rat \<Rightarrow> commission_entry list \<Rightarrow> nat" where
  "getCommissionRating commission commissionHistory =
     (if commission \<noteq> 100 \<and> commission \<noteq> 0 then
        (if commission > 10 then 1
         else if commission \<ge> 5 then
           (if length commissionHistory > 1
               \<and> js_gt_object (commissionHistory ! 0)
                    (commissionHistory ! (length commissionHistory - 1))
            then 3 else 2)
         else if commission < 5 then 3
         else 0)
      else 0)"

section \<open>Identity\<close>

datatype judgement = Unknown | FeePaid nat | Reasonable | KnownGood | OutOfDate | LowQuality | Erroneous

fun isFeePaid :: "judgement \<Rightarrow> bool" where
  "isFeePaid (FeePaid _) = True"
| "isFeePaid _ = False"

fun isKnownGood :: "judgement \<Rightarrow> bool" where
  "isKnownGood KnownGood = True"
| "isKnownGood _ = False"

fun isReasonable :: "judgement \<Rightarrow> bool" where
  "isReasonable Reasonable = True"
| "isReasonable _ = False"

text \<open>
  The identity of an account as the chain API derives it. A field that is absent
  (\<open>undefined\<close>) is \<open>None\<close>; \<open>parent\<close> is the address of the parent account;
  a judgement is the pair of the registrar's index and its verdict.
\<close>

record identity =
  display :: "string option"
  displayParent :: "string option"
  legal :: "string option"
  web :: "string option"
  email :: "string option"
  twitter :: "string option"
  riot :: "string option"
  parent :: "string option"
  judgements :: "(nat \<times> judgement) list"

text \<open>Truthiness of an optional string: \<open>undefined\<close> and the empty string are falsy.\<close>

fun truthy :: "string option \<Rightarrow> bool" where
  "truthy None = False"
| "truthy (Some s) = (s \<noteq> [])"

text \<open>\<open>s || ''\<close>\<close>

fun orEmpty :: "string option \<Rightarrow> string" where
  "orEmpty None = []"
| "orEmpty (Some s) = s"

definition isVerifiedIdentity :: "identity \<Rightarrow> bool" where
  "isVerifiedIdentity ident =
     (if length (judgements ident) = 0 then False
      else list_ex (\<lambda>(_, judgement). isKnownGood judgement \<or> isReasonable judgement)
             (filter (\<lambda>(_, judgement). \<not> isFeePaid judgement) (judgements ident)))"

definition getName :: "identity \<Rightarrow> string" where
  "getName ident =
     (if truthy (displayParent ident) \<and> displayParent ident \<noteq> Some []
         \<and> truthy (display ident) \<and> display ident \<noteq> Some []
      then the (displayParent ident) @ ''/'' @ the (display ident)
      else orEmpty (display ident))"

definition getClusterName :: "identity \<Rightarrow> string" where
  "getClusterName ident = orEmpty (displayParent ident)"

definition subIdentity :: "identity \<Rightarrow> bool" where
  "subIdentity ident =
     (if truthy (displayParent ident) \<and> displayParent ident \<noteq> Some []
         \<and> truthy (display ident) \<and> display ident \<noteq> Some []
      then True else False)"

definition getIdentityRating :: "string \<Rightarrow> bool \<Rightarrow> bool \<Rightarrow> nat" where
  "getIdentityRating name verifiedIdentity hasAllFields =
     (if verifiedIdentity \<and> hasAllFields then 3
      else if verifiedIdentity \<and> \<not> hasAllFields then 2
      else if name \<noteq> [] then 1
      else 0)"

text \<open>\<open>parseIdentity\<close> returns \<open>(verifiedIdentity, hasSubIdentity, name, identityRating)\<close>.\<close>

definition parseIdentity :: "identity \<Rightarrow> bool \<times> bool \<times> string \<times> nat" where
  "parseIdentity ident =
     (let verifiedIdentity = isVerifiedIdentity ident;
          hasSubIdentity = subIdentity ident;
          name = getName ident;
          hasAllFields = (truthy (display ident) \<and> truthy (legal ident) \<and> truthy (web ident)
            \<and> truthy (email ident) \<and> truthy (twitter ident) \<and> truthy (riot ident));
          identityRating = getIdentityRating name verifiedIdentity hasAllFields
      in (verifiedIdentity, hasSubIdentity, name, identityRating))"

section \<open>Payouts\<close>

datatype payout_status = Inactive | Paid | Pending

record payout_entry =
  po_era :: nat
  po_status :: payout_status

record config =
  startDelay :: nat
  pollingTime :: nat
  historySize :: nat
  erasPerDay :: nat
  tokenDecimals :: nat

definition getPayoutRating :: "payout_entry list \<Rightarrow> config \<Rightarrow> nat" where
  "getPayoutRating payoutHistory cfg =
     (let pendingEras = length (filter (\<lambda>e. po_status e = Pending) payoutHistory)
      in if pendingEras \<le> erasPerDay cfg then 3
         else if pendingEras \<le> 3 * erasPerDay cfg then 2
         else if pendingEras < 7 * erasPerDay cfg then 1
         else 0)"

section \<open>Validators as the chain returns them\<close>

record exposure =
  exp_own :: nat
  exp_total :: nat
  exp_others :: "(string \<times> nat) list"

record staking_ledger =
  ledger_total :: nat
  claimedRewards :: "nat list"

text \<open>
  A validator of the active set or a waiting intention, after the identity has been
  attached and \<open>active\<close> set (\<open>v_active\<close>). \<open>prefs_commission\<close> is
  \<open>validatorPrefs.commission\<close>, in parts per billion.
\<close>

record validator =
  accountId :: string
  stashId :: string
  controllerId :: string
  v_identity :: identity
  v_exposure :: exposure
  stakingLedger :: staking_ledger
  prefs_commission :: nat
  v_active :: bool

section \<open>Clusters\<close>

definition is_digit :: "char \<Rightarrow> bool" where
  "is_digit c = (c \<in> set ''0123456789'')"

text \<open>\<open>s.replace(/\d{1,2}$/g, '')\<close>: one or two digits at the end of the string are
  removed, two when there are two.\<close>

fun drop_digits_rev :: "string \<Rightarrow> string" where
  "drop_digits_rev (a # b # r) =
     (if is_digit a then (if is_digit b then r else b # r) else a # b # r)"
| "drop_digits_rev [a] = (if is_digit a then [] else [a])"
| "drop_digits_rev [] = []"

definition replace_trailing_digits :: "string \<Rightarrow> string" where
  "replace_trailing_digits s = rev (drop_digits_rev (rev s))"

text \<open>\<open>s.replace(/-$/g, '')\<close> and \<open>s.replace(/_$/g, '')\<close>: one such character at the
  end of the string is removed.\<close>

definition replace_trailing_char :: "char \<Rightarrow> string \<Rightarrow> string" where
  "replace_trailing_char c s = (if s \<noteq> [] \<and> last s = c then butlast s else s)"

text \<open>\<open>getClusterInfo\<close> returns \<open>(clusterName, clusterMembers)\<close>.\<close>

definition getClusterInfo :: "bool \<Rightarrow> validator list \<Rightarrow> identity \<Rightarrow> string \<times> nat" where
  "getClusterInfo hasSubIdentity validators validatorIdentity =
     (if \<not> hasSubIdentity then
        (if truthy (display validatorIdentity) then
           (let stringSize = 6;
                clusterMembers = length (filter
                  (\<lambda>v. take stringSize (orEmpty (display (v_identity v)))
                       = take stringSize (the (display validatorIdentity))) validators);
                clusterName = replace_trailing_char CHR ''_'' (replace_trailing_char CHR ''-''
                  (replace_trailing_digits (the (display validatorIdentity))))
            in (clusterName, clusterMembers))
         else ([], 0))
      else
        (let clusterMembers = length (filter
               (\<lambda>v. displayParent (v_identity v) = displayParent validatorIdentity) validators);
             clusterName = getClusterName validatorIdentity
         in (clusterName, clusterMembers)))"

text \<open>
  \<open>arr.slice(0, n)\<close> for an integer \<open>n\<close>: the first \<open>n\<close> elements, all of them when
  there are fewer; a negative \<open>n\<close> counts from the end of the array.
\<close>

definition slice0 :: "'a list \<Rightarrow> int \<Rightarrow> 'a list" where
  "slice0 arr n = (if n < 0 then take (nat (int (length arr) + n)) arr else take (nat n) arr)"

text \<open>
  \<open>getRandom\<close> shuffles a copy of the array by sorting it with a comparator that
  answers at random, and keeps its first \<open>n\<close> elements. The outcome of the shuffle is
  the parameter \<open>shuffle\<close>: the order in which the random sort leaves the array.
\<close>

definition getRandom :: "('a list \<Rightarrow> 'a list) \<Rightarrow> 'a list \<Rightarrow> int \<Rightarrow> 'a list" where
  "getRandom shuffle arr n = (let shuffled = shuffle arr in slice0 shuffled n)"

section \<open>Array.prototype.sort with a comparator\<close>

text \<open>
  The crawler runs on Node.js (the source uses optional chaining, so version 14 or
  later), whose engine sorts with TimSort. A comparator's answer is used only through
  its sign. The sort first measures the run at the start of the array: with
  \<open>order = comparefn(a[1], a[0])\<close>, the run is descending when \<open>order < 0\<close> and goes on
  while \<open>comparefn(a[i], a[i-1]) < 0\<close>, otherwise it is ascending and goes on while
  \<open>comparefn(a[i], a[i-1]) \<ge> 0\<close>; a descending run is reversed in place.
\<close>

fun run_ascending :: "('a \<Rightarrow> 'a \<Rightarrow> int) \<Rightarrow> 'a \<Rightarrow> 'a list \<Rightarrow> nat" where
  "run_ascending comparefn previousElement [] = 0"
| "run_ascending comparefn previousElement (currentElement # xs) =
     (if comparefn currentElement previousElement < 0 then 0
      else Suc (run_ascending comparefn currentElement xs))"

fun run_descending :: "('a \<Rightarrow> 'a \<Rightarrow> int) \<Rightarrow> 'a \<Rightarrow> 'a list \<Rightarrow> nat" where
  "run_descending comparefn previousElement [] = 0"
| "run_descending comparefn previousElement (currentElement # xs) =
     (if comparefn currentElement previousElement \<ge> 0 then 0
      else Suc (run_descending comparefn currentElement xs))"

fun countAndMakeRun :: "('a \<Rightarrow> 'a \<Rightarrow> int) \<Rightarrow> 'a list \<Rightarrow> nat \<times> 'a list" where
  "countAndMakeRun comparefn [] = (0, [])"
| "countAndMakeRun comparefn [a] = (1, [a])"
| "countAndMakeRun comparefn (elementHigh # elementLow # xs) =
     (let order = comparefn elementLow elementHigh;
          isDescending = (order < 0);
          runLength = 2 + (if isDescending then run_descending comparefn elementLow xs
                           else run_ascending comparefn elementLow xs);
          arr = elementHigh # elementLow # xs
      in (runLength,
          if isDescending then rev (take runLength arr) @ drop runLength arr else arr))"

text \<open>
  The elements after the run are then inserted one by one into the sorted front part,
  each at the place a binary search finds: with \<open>order = comparefn(pivot, a[mid])\<close>
  the search goes left when \<open>order < 0\<close> and right otherwise.
\<close>

function binarySearch :: "('a \<Rightarrow> 'a \<Rightarrow> int) \<Rightarrow> 'a list \<Rightarrow> 'a \<Rightarrow> nat \<Rightarrow> nat \<Rightarrow> nat" where
  "binarySearch comparefn arr pivot left right =
     (if left < right then
        (let mid = left + (right - left) div 2;
             order = comparefn pivot (arr ! mid)
         in if order < 0 then binarySearch comparefn arr pivot left mid
            else binarySearch comparefn arr pivot (mid + 1) right)
      else left)"
  by pat_completeness auto
termination
  by (relation "measure (\<lambda>(comparefn, arr, pivot, left, right). right - left)") auto

text \<open>\<open>binaryInsertionSort\<close> takes the sorted front part \<open>a[0..start)\<close> and the elements
  from \<open>a[start]\<close> on, which it inserts from left to right.\<close>

fun binaryInsertionSort :: "('a \<Rightarrow> 'a \<Rightarrow> int) \<Rightarrow> 'a list \<Rightarrow> 'a list \<Rightarrow> 'a list" where
  "binaryInsertionSort comparefn front [] = front"
| "binaryInsertionSort comparefn front (pivot # rest) =
     (let left = binarySearch comparefn front pivot 0 (length front)
      in binaryInsertionSort comparefn (take left front @ [pivot] @ drop left front) rest)"

text \<open>
  For an array of fewer than 64 elements this is the whole sort, and so it is for any
  array that is a single run. For a longer array with more than one run the engine
  goes on to collect further runs and to merge them; that part is not modelled and is
  the parameter \<open>mergeRuns\<close>, which receives the comparator, the array after the first
  run has been made, and the length of that run.
\<close>

definition array_sort ::
  "(('a \<Rightarrow> 'a \<Rightarrow> int) \<Rightarrow> 'a list \<Rightarrow> nat \<Rightarrow> 'a list) \<Rightarrow> ('a \<Rightarrow> 'a \<Rightarrow> int) \<Rightarrow> 'a list \<Rightarrow> 'a list" where
  "array_sort mergeRuns comparefn arr =
     (if length arr < 2 then arr
      else (case countAndMakeRun comparefn arr of (runLength, arr') \<Rightarrow>
        if runLength = length arr then arr'
        else if length arr < 64
          then binaryInsertionSort comparefn (take runLength arr') (drop runLength arr')
        else mergeRuns comparefn arr' runLength))"

section \<open>The data of one run\<close>

record era_points =
  ept_era :: nat
  ept_eraPoints :: nat
  ept_validators :: "string \<rightharpoonup> nat"

text \<open>An era's exposure, of which only each validator's \<open>total\<close> is read.\<close>

record era_exposure =
  ee_era :: nat
  ee_validators :: "string \<rightharpoonup> nat"

record era_slashes =
  es_era :: nat
  es_validators :: "string \<rightharpoonup> nat"

record points_entry =
  pt_era :: nat
  pt_points :: nat

text \<open>
  What the run has fetched when scoring starts. The validators of the session and the
  waiting intentions carry their identity already; \<open>nominatorEntries\<close> pairs each
  nominator with its targets; a proposal is its proposer with its seconds, a referendum
  the accounts of its votes; \<open>councilVotes\<close> holds the voter of each vote;
  \<open>stashAddressesCreation\<close> is the table of creation blocks as the look-ups in the
  event table have filled it; \<open>erasHistoric\<close> is the list of all historic eras.
\<close>

record chain =
  block_number :: nat
  sessionValidators :: "validator list"
  waitingInfo :: "validator list"
  nominatorEntries :: "(string \<times> string list) list"
  councilVotes :: "string list"
  erasHistoric :: "nat list"
  erasPoints :: "era_points list"
  erasPreferences :: "era_prefs list"
  erasSlashes :: "era_slashes list"
  erasExposure :: "era_exposure list"
  proposals :: "(string \<times> string list) list"
  referendums :: "string list list"
  maxNominatorRewardedPerValidator :: nat
  chainCurrentEra :: nat
  stashAddressesCreation :: "string \<rightharpoonup> nat"

definition eraIndexes :: "nat list \<Rightarrow> config \<Rightarrow> nat list" where
  "eraIndexes historic cfg =
     drop (nat (max (int (length historic) - int (historySize cfg)) 0)) historic"

text \<open>\<open>{ ...validator, identity, active: true }\<close> and \<open>{ ...intention, identity, active: false }\<close>\<close>

definition validators_active :: "chain \<Rightarrow> validator list" where
  "validators_active ch = map (\<lambda>validator. validator\<lparr>v_active := True\<rparr>) (sessionValidators ch)"

definition intentions :: "chain \<Rightarrow> validator list" where
  "intentions ch = map (\<lambda>intention. intention\<lparr>v_active := False\<rparr>) (waitingInfo ch)"

definition validators_all :: "chain \<Rightarrow> validator list" where
  "validators_all ch = validators_active ch @ intentions ch"

definition numActiveValidators :: "chain \<Rightarrow> nat" where
  "numActiveValidators ch = length (sessionValidators ch)"

definition eraPointsHistoryTotalsSum :: "chain \<Rightarrow> nat" where
  "eraPointsHistoryTotalsSum ch = foldl (\<lambda>total num. total + num) 0 (map ept_eraPoints (erasPoints ch))"

definition eraPointsAverage :: "chain \<Rightarrow> jsnum" where
  "eraPointsAverage ch =
     js_div (Num (of_nat (eraPointsHistoryTotalsSum ch))) (Num (of_nat (numActiveValidators ch)))"

definition participateInGovernance :: "chain \<Rightarrow> string list" where
  "participateInGovernance ch =
     concat (map (\<lambda>(proposer, seconds). proposer # seconds) (proposals ch))
       @ concat (referendums ch)"

section \<open>The thousand validators programme\<close>

text \<open>The request either fails or answers with the candidates, of which the stash
  address is read.\<close>

datatype http_response = Failed | Response "string list"

fun getThousandValidators :: "http_response \<Rightarrow> string list" where
  "getThousandValidators (Response data) = data"
| "getThousandValidators Failed = []"

section \<open>Scoring one validator\<close>

datatype js_error = TypeError

text \<open>
  The loop over \<open>erasPoints\<close>, with the variables it updates: \<open>eraPointsHistory\<close>,
  \<open>payoutHistory\<close>, \<open>activeEras\<close> and \<open>performance\<close>. Reading the total stake of an
  era whose exposure is not there, or has no entry for the stash, is a TypeError.
\<close>

fun eraLoop :: "chain \<Rightarrow> config \<Rightarrow> validator \<Rightarrow> string \<Rightarrow> rat \<Rightarrow> era_points list
    \<Rightarrow> points_entry list \<times> payout_entry list \<times> nat \<times> jsnum
    \<Rightarrow> js_error + (points_entry list \<times> payout_entry list \<times> nat \<times> jsnum)" where
  "eraLoop ch cfg validator stashAddress commission [] acc = Inr acc"
| "eraLoop ch cfg validator stashAddress commission (eraPoints # rest)
       (eraPointsHistory, payoutHistory, activeEras, performance) =
     (let era = ept_era eraPoints in
      case ept_validators eraPoints stashAddress of
        Some points \<Rightarrow>
          (case find (\<lambda>eraExposure. ee_era eraExposure = era) (erasExposure ch) of
             None \<Rightarrow> Inl TypeError
           | Some eraExposure \<Rightarrow>
               (case ee_validators eraExposure stashAddress of
                  None \<Rightarrow> Inl TypeError
                | Some eraTotalStake \<Rightarrow>
                    (let eraPayoutState =
                           (if era \<in> set (claimedRewards (stakingLedger validator))
                            then Paid else Pending);
                         eraPerformance = js_div
                           (Num (of_nat points * (1 - commission / 100)))
                           (bignumber_div (of_nat eraTotalStake) (10 ^ tokenDecimals cfg))
                     in eraLoop ch cfg validator stashAddress commission rest
                          (eraPointsHistory @ [\<lparr>pt_era = era, pt_points = points\<rparr>],
                           payoutHistory @ [\<lparr>po_era = era, po_status = eraPayoutState\<rparr>],
                           activeEras + 1,
                           js_add performance eraPerformance))))
      | None \<Rightarrow>
          eraLoop ch cfg validator stashAddress commission rest
            (eraPointsHistory @ [\<lparr>pt_era = era, pt_points = 0\<rparr>],
             payoutHistory @ [\<lparr>po_era = era, po_status = Inactive\<rparr>],
             activeEras,
             js_add performance (Num 0)))"

text \<open>
  The record that the scoring step returns for a validator. Two fields that only copy
  their input are left out: \<open>identity\<close> and \<open>thousandValidator\<close>.
\<close>

record scored =
  active :: bool
  activeRating :: nat
  name :: string
  hasSubIdentity :: bool
  subAccountsRating :: nat
  verifiedIdentity :: bool
  identityRating :: nat
  stashAddress :: string
  stashCreatedAtBlock :: jsnum
  stashParentCreatedAtBlock :: jsnum
  addressCreationRating :: nat
  controllerAddress :: string
  includedThousandValidators :: bool
  partOfCluster :: bool
  clusterName :: string
  clusterMembers :: nat
  showClusterMember :: bool
  nominators :: nat
  nominatorsRating :: nat
  commission :: rat
  commissionHistory :: "commission_entry list"
  commissionRating :: nat
  activeEras :: nat
  eraPointsHistory :: "points_entry list"
  eraPointsPercent :: jsnum
  eraPointsRating :: nat
  performance :: jsnum
  slashed :: bool
  slashRating :: nat
  slashes :: "era_slashes list"
  councilBacking :: bool
  activeInGovernance :: bool
  governanceRating :: nat
  payoutHistory :: "payout_entry list"
  payoutRating :: nat
  selfStake :: nat
  otherStake :: int
  totalStake :: nat
  totalRating :: nat

text \<open>The variables that the scoring of all validators shares and updates.\<close>

record run_state =
  clusters :: "string list"
  maxPerformance :: jsnum
  minPerformance :: jsnum

text \<open>\<open>parseInt(stashAddressesCreation[address], 10)\<close>: NaN for an address without entry.\<close>

definition createdAtBlock :: "chain \<Rightarrow> string \<Rightarrow> jsnum" where
  "createdAtBlock ch address =
     (case stashAddressesCreation ch address of None \<Rightarrow> NaN | Some b \<Rightarrow> Num (of_nat b))"

text \<open>The three comparisons with quarters of the block height, which the source writes
  once for the better of stash and parent and once for the stash alone.\<close>

definition addressCreationBand :: "jsnum \<Rightarrow> nat \<Rightarrow> nat" where
  "addressCreationBand best blockHeight =
     (if js_le best (Num (of_nat blockHeight / 4)) then 3
      else if js_le best (Num ((of_nat blockHeight / 4) * 2)) then 2
      else if js_le best (Num ((of_nat blockHeight / 4) * 3)) then 1
      else 0)"

text \<open>
  The scoring of one validator: the function that the source maps over all validators.
  It returns the scored record and the shared variables as it leaves them.
\<close>

definition scoreValidator ::
  "chain \<Rightarrow> config \<Rightarrow> string list \<Rightarrow> run_state \<Rightarrow> validator \<Rightarrow> js_error + (scored \<times> run_state)" where
  "scoreValidator ch cfg thousandValidators st validator =
     (let blockHeight = block_number ch;
          active = v_active validator;
          activeRating = (if active then 2 else 0);
          stashAddress = stashId validator;
          stashCreatedAtBlock = createdAtBlock ch stashAddress;
          stashParentCreatedAtBlock =
            (case parent (v_identity validator) of
               Some p \<Rightarrow> createdAtBlock ch p
             | None \<Rightarrow> Num 0);
          addressCreationRating =
            (case parent (v_identity validator) of
               Some p \<Rightarrow>
                 (let best = (if js_gt stashParentCreatedAtBlock stashCreatedAtBlock
                              then stashCreatedAtBlock else stashParentCreatedAtBlock)
                  in addressCreationBand best blockHeight)
             | None \<Rightarrow> addressCreationBand stashCreatedAtBlock blockHeight);
          includedThousandValidators = list_ex (\<lambda>stash. stash = stashAddress) thousandValidators;
          controllerAddress = controllerId validator;
          (verifiedIdentity, hasSubIdentity, name, identityRating) =
            parseIdentity (v_identity validator);
          (clusterName, clusterMembers) =
            getClusterInfo hasSubIdentity (validators_all ch) (v_identity validator);
          clusters' = (if clusterName \<noteq> [] \<and> clusterName \<notin> set (clusters st)
                       then clusters st @ [clusterName] else clusters st);
          partOfCluster = (clusterMembers > 1);
          subAccountsRating = (if hasSubIdentity then 2 else 0);
          nominators =
            (if active then length (exp_others (v_exposure validator))
             else length (filter
               (\<lambda>(nominator, targets). list_ex (\<lambda>target. target = accountId validator) targets)
               (nominatorEntries ch)));
          nominatorsRating =
            (if nominators > 0 \<and> nominators \<le> maxNominatorRewardedPerValidator ch then 2 else 0);
          slashes = filter (\<lambda>e. es_validators e (accountId validator) \<noteq> None) (erasSlashes ch);
          slashed = (length slashes > 0);
          slashRating = (if slashed then 0 else 2);
          commission = of_nat (prefs_commission validator) / 10000000;
          commissionHistory = getCommissionHistory (accountId validator) (erasPreferences ch);
          commissionRating = getCommissionRating commission commissionHistory;
          councilBacking =
            (case parent (v_identity validator) of
               Some p \<Rightarrow> list_ex (\<lambda>vote. vote = accountId validator) (councilVotes ch)
                         \<or> list_ex (\<lambda>vote. vote = p) (councilVotes ch)
             | None \<Rightarrow> list_ex (\<lambda>vote. vote = accountId validator) (councilVotes ch));
          activeInGovernance =
            (case parent (v_identity validator) of
               Some p \<Rightarrow> accountId validator \<in> set (participateInGovernance ch)
                         \<or> p \<in> set (participateInGovernance ch)
             | None \<Rightarrow> accountId validator \<in> set (participateInGovernance ch));
          governanceRating =
            (if councilBacking \<and> activeInGovernance then 3
             else if councilBacking \<or> activeInGovernance then 2
             else 0)
      in case eraLoop ch cfg validator stashAddress commission (erasPoints ch) ([], [], 0, Num 0) of
           Inl e \<Rightarrow> Inl e
         | Inr loopResult \<Rightarrow>
     (let (eraPointsHistory, payoutHistory, activeEras, performance) = loopResult;
          eraPointsHistoryValidator = foldl (\<lambda>total era. total + pt_points era) 0 eraPointsHistory;
          eraPointsPercent = js_div (Num (of_nat eraPointsHistoryValidator * 100))
                                    (Num (of_nat (eraPointsHistoryTotalsSum ch)));
          eraPointsRating =
            (if js_gt (Num (of_nat eraPointsHistoryValidator)) (eraPointsAverage ch) then 2 else 0);
          payoutRating = getPayoutRating payoutHistory cfg;
          selfStake = (if active then exp_own (v_exposure validator)
                       else ledger_total (stakingLedger validator));
          totalStake = (if active then exp_total (v_exposure validator) else selfStake);
          otherStake = (if active then int totalStake - int selfStake else 0);
          maxPerformance' = (if js_gt performance (maxPerformance st)
                             then performance else maxPerformance st);
          minPerformance' = (if js_lt performance (minPerformance st)
                             then performance else minPerformance st);
          showClusterMember = True;
          totalRating = activeRating
            + addressCreationRating
            + identityRating
            + subAccountsRating
            + nominatorsRating
            + commissionRating
            + eraPointsRating
            + slashRating
            + governanceRating
            + payoutRating
      in Inr (\<lparr>active = active,
               activeRating = activeRating,
               name = name,
               hasSubIdentity = hasSubIdentity,
               subAccountsRating = subAccountsRating,
               verifiedIdentity = verifiedIdentity,
               identityRating = identityRating,
               stashAddress = stashAddress,
               stashCreatedAtBlock = stashCreatedAtBlock,
               stashParentCreatedAtBlock = stashParentCreatedAtBlock,
               addressCreationRating = addressCreationRating,
               controllerAddress = controllerAddress,
               includedThousandValidators = includedThousandValidators,
               partOfCluster = partOfCluster,
               clusterName = clusterName,
               clusterMembers = clusterMembers,
               showClusterMember = showClusterMember,
               nominators = nominators,
               nominatorsRating = nominatorsRating,
               commission = commission,
               commissionHistory = commissionHistory,
               commissionRating = commissionRating,
               activeEras = activeEras,
               eraPointsHistory = eraPointsHistory,
               eraPointsPercent = eraPointsPercent,
               eraPointsRating = eraPointsRating,
               performance = performance,
               slashed = slashed,
               slashRating = slashRating,
               slashes = slashes,
               councilBacking = councilBacking,
               activeInGovernance = activeInGovernance,
               governanceRating = governanceRating,
               payoutHistory = payoutHistory,
               payoutRating = payoutRating,
               selfStake = selfStake,
               otherStake = otherStake,
               totalStake = totalStake,
               totalRating = totalRating\<rparr>,
              \<lparr>clusters = clusters',
               maxPerformance = maxPerformance',
               minPerformance = minPerformance'\<rparr>)))"

text \<open>The map over all validators, from left to right; an exception ends it.\<close>

fun scoreAll ::
  "chain \<Rightarrow> config \<Rightarrow> string list \<Rightarrow> run_state \<Rightarrow> validator list \<Rightarrow> js_error + (scored list \<times> run_state)" where
  "scoreAll ch cfg tv st [] = Inr ([], st)"
| "scoreAll ch cfg tv st (v # vs) =
     (case scoreValidator ch cfg tv st v of
        Inl e \<Rightarrow> Inl e
      | Inr (s, st') \<Rightarrow>
          (case scoreAll ch cfg tv st' vs of
             Inl e \<Rightarrow> Inl e
           | Inr (ss, st'') \<Rightarrow> Inr (s # ss, st'')))"

section \<open>Ordering, rank and relative performance\<close>

text \<open>\<open>(a, b) => (a.totalRating < b.totalRating ? 1 : -1)\<close>\<close>

definition rankingCompare :: "scored \<Rightarrow> scored \<Rightarrow> int" where
  "rankingCompare a b = (if totalRating a < totalRating b then 1 else - 1)"

text \<open>\<open>relativePerformance\<close> is the text of \<open>toFixed(6)\<close>, kept as the number that
  \<open>parseFloat\<close> later reads from it.\<close>

record ranked = scored +
  rank :: nat
  relativePerformance :: jsnum
  dominated :: bool

text \<open>The map over the sorted array, which reads the extremes of the performance as the
  scoring has left them.\<close>

definition addRank :: "run_state \<Rightarrow> scored list \<Rightarrow> ranked list" where
  "addRank st sortedValidators =
     map (\<lambda>(i, validator).
            (let relativePerformance = toFixed 6
                   (js_div (js_sub (performance validator) (minPerformance st))
                           (js_sub (maxPerformance st) (minPerformance st)));
                 dominated = False
             in scored.extend validator (ranked.fields (i + 1) relativePerformance dominated)))
         (enumerate 0 sortedValidators)"

section \<open>Dominated validators\<close>

definition dominates :: "ranked \<Rightarrow> ranked \<Rightarrow> bool" where
  "dominates opponent validator =
     (js_ge (relativePerformance opponent) (relativePerformance validator)
      \<and> selfStake opponent \<ge> selfStake validator
      \<and> activeEras opponent \<ge> activeEras validator
      \<and> totalRating opponent \<ge> totalRating validator)"

text \<open>
  The inner loop over the opponents, which stops at the first one that dominates.
  \<open>opponent !== validator\<close> compares objects: the elements of the ranking are distinct
  objects, so an opponent is the validator itself exactly when it stands at the same
  position.
\<close>

fun dominatedLoop :: "nat \<Rightarrow> ranked \<Rightarrow> (nat \<times> ranked) list \<Rightarrow> bool" where
  "dominatedLoop i validator [] = False"
| "dominatedLoop i validator ((j, opponent) # rest) =
     (if j \<noteq> i \<and> dominates opponent validator then True
      else dominatedLoop i validator rest)"

definition findDominated :: "ranked list \<Rightarrow> ranked list" where
  "findDominated ranking =
     map (\<lambda>(i, validator). validator\<lparr>dominated := dominatedLoop i validator (enumerate 0 ranking)\<rparr>)
         (enumerate 0 ranking)"

section \<open>Hiding members of a cluster\<close>

text \<open>\<open>Math.floor(clusterSize * 0.2)\<close> and its like: for the sizes of a validator set the
  product of the doubles, rounded down, is the integer quotient below.\<close>

definition showCount :: "nat \<Rightarrow> nat" where
  "showCount clusterSize =
     (if clusterSize > 50 then (clusterSize * 2) div 10
      else if clusterSize > 20 then (clusterSize * 4) div 10
      else if clusterSize > 10 then (clusterSize * 6) div 10
      else if clusterSize > 2 then (clusterSize * 8) div 10
      else 2)"

text \<open>
  The loop over the cluster names. Each call of \<open>getRandom\<close> shuffles anew: \<open>shuffle\<close>
  gives, for the cluster at hand, the order in which the shuffle leaves its array.
  Reading \<open>clusterMembers[0].clusterMembers\<close> of a cluster without member is a
  TypeError.
\<close>

fun hideLoop :: "(string \<Rightarrow> nat list \<Rightarrow> nat list) \<Rightarrow> ranked list \<Rightarrow> string list \<Rightarrow> nat list
    \<Rightarrow> js_error + nat list" where
  "hideLoop shuffle ranking [] validatorsToHide = Inr validatorsToHide"
| "hideLoop shuffle ranking (cluster # rest) validatorsToHide =
     (case filter (\<lambda>v. clusterName v = cluster) ranking of
        [] \<Rightarrow> Inl TypeError
      | first # others \<Rightarrow>
          (let clusterSize = clusterMembers first;
               shown = showCount clusterSize;
               hide = int clusterSize - int shown;
               rankingPositions = map rank (first # others)
           in hideLoop shuffle ranking rest
                (validatorsToHide @ getRandom (shuffle cluster) rankingPositions hide)))"

definition applyHide :: "nat list \<Rightarrow> ranked list \<Rightarrow> ranked list" where
  "applyHide validatorsToHide ranking =
     map (\<lambda>validator. if rank validator \<in> set validatorsToHide
                       then validator\<lparr>showClusterMember := False\<rparr> else validator)
         ranking"

section \<open>The totals\<close>

text \<open>\<open>(a, b) => (a <= b ? 1 : 0)\<close> on the stakes\<close>

definition stakeCompare :: "nat \<Rightarrow> nat \<Rightarrow> int" where
  "stakeCompare a b = (if a \<le> b then 1 else 0)"

text \<open>\<open>nominatorStakes[0]\<close> after the sort; \<open>undefined\<close> (\<open>None\<close>) when there is no stake.\<close>

definition minimumStake :: "((nat \<Rightarrow> nat \<Rightarrow> int) \<Rightarrow> nat list \<Rightarrow> nat \<Rightarrow> nat list) \<Rightarrow> chain \<Rightarrow> nat option" where
  "minimumStake mergeRuns ch =
     (let nominatorStakes = concat (map (\<lambda>validator. map snd (exp_others (v_exposure validator)))
                                       (validators_active ch))
      in case array_sort mergeRuns stakeCompare nominatorStakes of
           [] \<Rightarrow> None
         | nominatorStake # _ \<Rightarrow> Some nominatorStake)"

text \<open>
  The table \<open>total(name, count)\<close>: a row per name; the count is the text that the
  statement writes, a numeral or, for \<open>undefined\<close>, \<open>None\<close>. An \<open>UPDATE\<close> changes the
  row of that name if there is one; a query that fails is logged and changes nothing.
\<close>

type_synonym total_table = "string \<rightharpoonup> nat option"

definition updateTotal :: "(string \<Rightarrow> bool) \<Rightarrow> string \<Rightarrow> nat option \<Rightarrow> total_table \<Rightarrow> total_table" where
  "updateTotal queryFails row newCount tbl =
     (if queryFails row then tbl
      else if tbl row = None then tbl
      else tbl(row \<mapsto> newCount))"

definition updateTotals ::
  "((nat \<Rightarrow> nat \<Rightarrow> int) \<Rightarrow> nat list \<Rightarrow> nat \<Rightarrow> nat list) \<Rightarrow> (string \<Rightarrow> bool) \<Rightarrow> chain \<Rightarrow> total_table \<Rightarrow> total_table" where
  "updateTotals mergeRuns queryFails ch tbl =
     (let activeValidatorCount = length (sessionValidators ch);
          waitingValidatorCount = length (waitingInfo ch);
          nominatorCount = length (nominatorEntries ch);
          currentEra = chainCurrentEra ch;
          minimumStake = minimumStake mergeRuns ch
      in updateTotal queryFails ''minimum_stake'' minimumStake
           (updateTotal queryFails ''current_era'' (Some currentEra)
             (updateTotal queryFails ''nominator_count'' (Some nominatorCount)
               (updateTotal queryFails ''waiting_validator_count'' (Some waitingValidatorCount)
                 (updateTotal queryFails ''active_validator_count'' (Some activeValidatorCount)
                    tbl)))))"

section \<open>The ranking of one run\<close>

text \<open>
  From the scoring to the hiding of cluster members: the ranking that the run then
  stores, or the exception that ends the run.
\<close>

definition produceRanking ::
  "((scored \<Rightarrow> scored \<Rightarrow> int) \<Rightarrow> scored list \<Rightarrow> nat \<Rightarrow> scored list)
    \<Rightarrow> (string \<Rightarrow> nat list \<Rightarrow> nat list) \<Rightarrow> http_response \<Rightarrow> chain \<Rightarrow> config
    \<Rightarrow> js_error + ranked list" where
  "produceRanking mergeRuns shuffle response ch cfg =
     (let thousandValidators = getThousandValidators response
      in case scoreAll ch cfg thousandValidators
                \<lparr>clusters = [], maxPerformance = Num 0, minPerformance = Num 0\<rparr>
                (validators_all ch) of
           Inl e \<Rightarrow> Inl e
         | Inr (scoredValidators, st) \<Rightarrow>
             (let ranking = addRank st (array_sort mergeRuns rankingCompare scoredValidators);
                  ranking' = findDominated ranking
              in case hideLoop shuffle ranking' (clusters st) [] of
                   Inl e \<Rightarrow> Inl e
                 | Inr validatorsToHide \<Rightarrow> Inr (applyHide validatorsToHide ranking')))"

section \<open>The scheduler\<close>

text \<open>
  \<open>start\<close> first waits, when it is asked to, and makes the provider; then it runs its
  body inside \<open>try\<close>; in \<open>catch\<close> it logs what the body has thrown, as the text that
  \<open>JSON.stringify\<close> makes of it; and then it calls \<open>setTimeout\<close> with itself and
  \<open>pollingTime\<close>. The model follows the calls of \<open>start\<close> that are in flight and the
  timers that are set. The process calls \<open>start\<close> once; every other call comes from a
  timer.

  Of a value that is thrown, what matters is whether \<open>JSON.stringify\<close> can write it: an
  error object of the engine, such as a TypeError, is written as \<open>{}\<close>; for an object
  with a reference cycle \<open>JSON.stringify\<close> throws a TypeError.
\<close>

datatype thrown = ErrorObject js_error | CyclicObject

fun JSON_stringify :: "thrown \<Rightarrow> js_error + string" where
  "JSON_stringify (ErrorObject e) = Inr ''{}''"
| "JSON_stringify CyclicObject = Inl TypeError"

datatype body_outcome = Succeeded | Threw thrown

datatype completion = Returned | Rejected thrown

record scheduler =
  now :: nat
  inFlight :: nat
  timers :: "nat list"

text \<open>
  A call of \<open>start\<close> that ends at the time \<open>now\<close>: how the call completes, and the
  scheduler after it. \<open>before\<close> is what the waiting or the making of the provider has
  thrown, if anything; the statements before \<open>try\<close> are not guarded, so the call ends
  there. \<open>outcome\<close> is how the body has ended. What \<open>JSON.stringify\<close> throws inside
  \<open>catch\<close> is not caught either. Only a call that gets past \<open>catch\<close> sets the timer.
\<close>

definition start_end ::
  "config \<Rightarrow> thrown option \<Rightarrow> body_outcome \<Rightarrow> scheduler \<Rightarrow> completion \<times> scheduler" where
  "start_end cfg before outcome s =
     (case before of
        Some e \<Rightarrow> (Rejected e, s\<lparr>inFlight := inFlight s - 1\<rparr>)
      | None \<Rightarrow>
          (case outcome of
             Succeeded \<Rightarrow>
               (Returned,
                s\<lparr>inFlight := inFlight s - 1, timers := timers s @ [now s + pollingTime cfg]\<rparr>)
           | Threw error \<Rightarrow>
               (case JSON_stringify error of
                  Inl e \<Rightarrow> (Rejected (ErrorObject e), s\<lparr>inFlight := inFlight s - 1\<rparr>)
                | Inr text \<Rightarrow>
                    (Returned,
                     s\<lparr>inFlight := inFlight s - 1,
                       timers := timers s @ [now s + pollingTime cfg]\<rparr>))))"

text \<open>
  What can happen: a call in flight ends, the timer at a position of the queue fires
  once it is due and calls \<open>start\<close>, or time passes.
\<close>

datatype event = Finish "thrown option" body_outcome | Fire nat | Tick nat

fun step :: "config \<Rightarrow> event \<Rightarrow> scheduler \<Rightarrow> scheduler option" where
  "step cfg (Finish before outcome) s =
     (if inFlight s > 0 then Some (snd (start_end cfg before outcome s)) else None)"
| "step cfg (Fire k) s =
     (if k < length (timers s) \<and> timers s ! k \<le> now s
      then Some (s\<lparr>timers := take k (timers s) @ drop (Suc k) (timers s),
                   inFlight := inFlight s + 1\<rparr>)
      else None)"
| "step cfg (Tick d) s = Some (s\<lparr>now := now s + d\<rparr>)"

fun steps :: "config \<Rightarrow> event list \<Rightarrow> scheduler \<Rightarrow> scheduler option" where
  "steps cfg [] s = Some s"
| "steps cfg (e # es) s = (case step cfg e s of None \<Rightarrow> None | Some s' \<Rightarrow> steps cfg es s')"

text \<open>The scheduler when the process has called \<open>start\<close>, at the time \<open>t\<close>.\<close>

definition started :: "nat \<Rightarrow> scheduler" where
  "started t = \<lparr>now = t, inFlight = 1, timers = []\<rparr>"

text \<open>The two updates of the extremes of the performance, as functions of the extreme so
  far and the performance of the validator at hand.\<close>

definition maxStep :: "jsnum \<Rightarrow> jsnum \<Rightarrow> jsnum" where
  "maxStep m p = (if js_gt p m then p else m)"

definition minStep :: "jsnum \<Rightarrow> jsnum \<Rightarrow> jsnum" where
  "minStep m p = (if js_lt p m then p else m)"

section \<open>Example data\<close>

definition noIdentity :: identity where
  "noIdentity = \<lparr>display = None, displayParent = None, legal = None, web = None, email = None,
     twitter = None, riot = None, parent = None, judgements = []\<rparr>"

text \<open>A validator whose three addresses are the same, with an own stake of 1, the given
  commission (parts per billion) and the given nominators.\<close>

definition mkValidator :: "string \<Rightarrow> identity \<Rightarrow> nat \<Rightarrow> (string \<times> nat) list \<Rightarrow> validator" where
  "mkValidator address ident c others =
     \<lparr>accountId = address, stashId = address, controllerId = address, v_identity = ident,
      v_exposure = \<lparr>exp_own = 1, exp_total = 1 + sum_list (map snd others), exp_others = others\<rparr>,
      stakingLedger = \<lparr>ledger_total = 1, claimedRewards = []\<rparr>,
      prefs_commission = c, v_active = False\<rparr>"

definition cfg0 :: config where
  "cfg0 = \<lparr>startDelay = 0, pollingTime = 300000, historySize = 2, erasPerDay = 4, tokenDecimals = 0\<rparr>"

definition emptyChain :: chain where
  "emptyChain = \<lparr>block_number = 1000, sessionValidators = [], waitingInfo = [],
     nominatorEntries = [], councilVotes = [], erasHistoric = [1, 2], erasPoints = [],
     erasPreferences = [], erasSlashes = [], erasExposure = [], proposals = [], referendums = [],
     maxNominatorRewardedPerValidator = 256, chainCurrentEra = 3,
     stashAddressesCreation = Map.empty\<rparr>"

definition totals0 :: total_table where
  "totals0 = [''active_validator_count'' \<mapsto> Some 0, ''waiting_validator_count'' \<mapsto> Some 0,
     ''nominator_count'' \<mapsto> Some 0, ''current_era'' \<mapsto> Some 0, ''minimum_stake'' \<mapsto> Some 0]"

text \<open>One active validator with two nominators, whose stakes are 5 and 3.\<close>

definition stakeChain :: chain where
  "stakeChain = emptyChain\<lparr>sessionValidators :=
     [mkValidator ''A'' noIdentity 100000000 [(''n1'', 5), (''n2'', 3)]]\<rparr>"

text \<open>A sort that is never asked to merge, and two outcomes of the shuffle: the array in
  its order and in reverse.\<close>

definition keepRuns :: "('a \<Rightarrow> 'a \<Rightarrow> int) \<Rightarrow> 'a list \<Rightarrow> nat \<Rightarrow> 'a list" where
  "keepRuns comparefn arr runLength = arr"

definition keepOrder :: "string \<Rightarrow> nat list \<Rightarrow> nat list" where
  "keepOrder cluster arr = arr"

definition reverseOrder :: "string \<Rightarrow> nat list \<Rightarrow> nat list" where
  "reverseOrder cluster arr = rev arr"

text \<open>Two waiting validators without identity.\<close>

definition tieChain :: chain where
  "tieChain = emptyChain\<lparr>waitingInfo :=
     [mkValidator ''A'' noIdentity 100000000 [], mkValidator ''B'' noIdentity 100000000 []]\<rparr>"

text \<open>Two waiting validators whose names differ in a final digit.\<close>

definition aliceChain :: chain where
  "aliceChain = emptyChain\<lparr>waitingInfo :=
     [mkValidator ''A'' (noIdentity\<lparr>display := Some ''Alice1''\<rparr>) 100000000 [],
      mkValidator ''B'' (noIdentity\<lparr>display := Some ''Alice2''\<rparr>) 100000000 []]\<rparr>"

text \<open>Two active validators with era points in era 2, and none in era 3; with them the
  performances are 1 and 2.\<close>

definition perfChain :: chain where
  "perfChain = emptyChain\<lparr>
     erasHistoric := [1, 2, 3],
     sessionValidators :=
       [mkValidator ''X'' noIdentity 500000000 [], mkValidator ''Y'' noIdentity 500000000 []],
     erasPoints :=
       [\<lparr>ept_era = 2, ept_eraPoints = 60, ept_validators = [''X'' \<mapsto> 20, ''Y'' \<mapsto> 40]\<rparr>,
        \<lparr>ept_era = 3, ept_eraPoints = 0, ept_validators = Map.empty\<rparr>],
     erasPreferences :=
       [\<lparr>ep_era = 2, ep_validators = [''X'' \<mapsto> 500000000, ''Y'' \<mapsto> 500000000]\<rparr>,
        \<lparr>ep_era = 3, ep_validators = Map.empty\<rparr>],
     erasExposure :=
       [\<lparr>ee_era = 2, ee_validators = [''X'' \<mapsto> 10, ''Y'' \<mapsto> 10]\<rparr>,
        \<lparr>ee_era = 3, ee_validators = Map.empty\<rparr>]\<rparr>"

text \<open>The same with equal era points.\<close>

definition twinChain :: chain where
  "twinChain = perfChain\<lparr>erasPoints :=
       [\<lparr>ept_era = 2, ept_eraPoints = 40, ept_validators = [''X'' \<mapsto> 20, ''Y'' \<mapsto> 20]\<rparr>,
        \<lparr>ept_era = 3, ept_eraPoints = 0, ept_validators = Map.empty\<rparr>]\<rparr>"

text \<open>One active validator with era points and one waiting validator: the performances
  are 1 and 0.\<close>

definition anchorChain :: chain where
  "anchorChain = perfChain\<lparr>
     sessionValidators := [mkValidator ''X'' noIdentity 500000000 []],
     waitingInfo := [mkValidator ''Z'' noIdentity 100000000 []],
     erasPoints :=
       [\<lparr>ept_era = 2, ept_eraPoints = 20, ept_validators = [''X'' \<mapsto> 20]\<rparr>,
        \<lparr>ept_era = 3, ept_eraPoints = 0, ept_validators = Map.empty\<rparr>]\<rparr>"

text \<open>A token of 21 decimals, and an era in which the total stake of X is one unit and
  that of Y is one token: divided by \<open>10^21\<close> and rounded to 20 decimals, the stake of X
  is 0.\<close>

definition cfg21 :: config where
  "cfg21 = cfg0\<lparr>tokenDecimals := 21\<rparr>"

definition dustChain :: chain where
  "dustChain = perfChain\<lparr>erasExposure :=
       [\<lparr>ee_era = 2, ee_validators = [''X'' \<mapsto> 1, ''Y'' \<mapsto> 1000000000000000000000]\<rparr>,
        \<lparr>ee_era = 3, ee_validators = Map.empty\<rparr>]\<rparr>"

text \<open>Two active validators, of which X takes a commission of 200 per cent and Y has no
  era points: the performances are -2 and 0.\<close>

definition surchargeChain :: chain where
  "surchargeChain = perfChain\<lparr>
     sessionValidators :=
       [mkValidator ''X'' noIdentity 2000000000 [], mkValidator ''Y'' noIdentity 500000000 []],
     erasPoints :=
       [\<lparr>ept_era = 2, ept_eraPoints = 20, ept_validators = [''X'' \<mapsto> 20]\<rparr>,
        \<lparr>ept_era = 3, ept_eraPoints = 0, ept_validators = Map.empty\<rparr>]\<rparr>"

section \<open>The commission rating\<close>

lemma js_string_lt_irrefl: "\<not> js_string_lt s s"
  by (induction s) auto

lemma js_gt_object_never: "\<not> js_gt_object a b"
  by (simp add: js_gt_object_def toPrimitive_object_def js_string_lt_irrefl)

lemma getCommissionRating_band_5_10:
  "5 \<le> c \<Longrightarrow> c \<le> 10 \<Longrightarrow> getCommissionRating c h = 2"
  by (simp add: getCommissionRating_def js_gt_object_never)

text \<open>The rating that the source computes depends on the commission alone.\<close>

lemma getCommissionRating_bands:
  "getCommissionRating c h =
     (if c = 0 \<or> c = 100 then 0 else if 10 < c then 1 else if 5 \<le> c then 2 else 3)"
  by (auto simp: getCommissionRating_def js_gt_object_never)

lemma toFixed_12: "toFixed_rat 2 12 = 12"
proof -
  have "\<lfloor>(2401::rat) / 2\<rfloor> = 1200" by linarith
  then show ?thesis by (simp add: toFixed_rat_def)
qed

lemma toFixed_7: "toFixed_rat 2 7 = 7"
proof -
  have "\<lfloor>(1401::rat) / 2\<rfloor> = 700" by linarith
  then show ?thesis by (simp add: toFixed_rat_def)
qed

text \<open>
  C1. The claim: a commission between 5 and 10 is rated 2, and 3 when the history has
  more than one entry and its oldest commission exceeds its newest. The source compares
  the two entries of the history themselves, not their commissions, and two objects
  never compare greater. For a validator whose commission went from 12 to 7 per cent
  the history holds 12.00 and then 7.00, and the rating is 2.
\<close>

theorem commission_rating_ignores_trend:
  "(let h = getCommissionHistory ''V''
             [\<lparr>ep_era = 1, ep_validators = [''V'' \<mapsto> 120000000]\<rparr>,
              \<lparr>ep_era = 2, ep_validators = [''V'' \<mapsto> 70000000]\<rparr>]
    in map ce_commission h = [Some 12, Some 7]
       \<and> getCommissionRating (of_nat 70000000 / 10000000) h = 2)"
  by (simp add: getCommissionHistory_def getCommissionRating_def js_gt_object_never
        toFixed_12 toFixed_7)

section \<open>The minimum stake\<close>

lemma run_ascending_stakeCompare: "run_ascending stakeCompare p xs = length xs"
  by (induction xs arbitrary: p) (auto simp: stakeCompare_def)

lemma countAndMakeRun_stakeCompare: "countAndMakeRun stakeCompare xs = (length xs, xs)"
proof (cases xs)
  case Nil
  then show ?thesis by simp
next
  case (Cons a ys)
  then show ?thesis
    by (cases ys) (simp_all add: run_ascending_stakeCompare stakeCompare_def Let_def)
qed

text \<open>The comparator of the stakes never answers below zero, so the whole array is one
  ascending run and the sort leaves it as it is.\<close>

lemma array_sort_stakeCompare: "array_sort mergeRuns stakeCompare xs = xs"
  by (simp add: array_sort_def countAndMakeRun_stakeCompare)

lemma minimumStake_first:
  "minimumStake mergeRuns ch =
     (case concat (map (\<lambda>validator. map snd (exp_others (v_exposure validator)))
                       (sessionValidators ch)) of
        [] \<Rightarrow> None | x # _ \<Rightarrow> Some x)"
  by (simp add: minimumStake_def array_sort_stakeCompare validators_active_def comp_def)

text \<open>
  C4. The claim: the row \<open>minimum_stake\<close> receives the smallest stake of all nominators
  of the active validators. With one active validator whose nominators stake 5 and 3,
  the smallest stake is 3 and the row receives 5, the first stake of the array.
\<close>

theorem minimum_stake_is_first_stake:
  "updateTotals (\<lambda>comparefn arr runLength. arr) (\<lambda>row. False) stakeChain totals0 ''minimum_stake''
     = Some (Some 5)
   \<and> Min (set (concat (map (\<lambda>v. map snd (exp_others (v_exposure v)))
                          (validators_active stakeChain)))) = 3"
  by (simp add: updateTotals_def updateTotal_def minimumStake_first stakeChain_def emptyChain_def
       mkValidator_def totals0_def validators_active_def)

section \<open>The sort permutes\<close>

lemma mset_rev_take_drop: "mset (rev (take n xs) @ drop n xs) = mset xs"
proof -
  have "mset (take n xs) + mset (drop n xs) = mset xs"
    by (simp flip: mset_append)
  then show ?thesis by simp
qed

lemma mset_insert_at: "mset (take k xs @ [x] @ drop k xs) = add_mset x (mset xs)"
proof -
  have "mset (take k xs) + mset (drop k xs) = mset xs"
    by (simp flip: mset_append)
  then show ?thesis by simp
qed

lemma mset_countAndMakeRun: "mset (snd (countAndMakeRun cmp xs)) = mset xs"
proof (cases "(cmp, xs)" rule: countAndMakeRun.cases)
  case (1 comparefn)
  then show ?thesis by simp
next
  case (2 comparefn a)
  then show ?thesis by simp
next
  case (3 comparefn a b zs)
  then have xs: "xs = a # b # zs" and c: "comparefn = cmp" by simp_all
  show ?thesis
  proof (cases "cmp b a < 0")
    case True
    then show ?thesis
      unfolding xs by (simp only: countAndMakeRun.simps Let_def if_True snd_conv mset_rev_take_drop)
  next
    case False
    then show ?thesis
      unfolding xs by (simp only: countAndMakeRun.simps Let_def if_False snd_conv)
  qed
qed

lemma mset_binaryInsertionSort:
  "mset (binaryInsertionSort cmp front rest) = mset front + mset rest"
proof (induction rest arbitrary: front)
  case Nil
  then show ?case by simp
next
  case (Cons pivot rest)
  define left where "left = binarySearch cmp front pivot 0 (length front)"
  have "binaryInsertionSort cmp front (pivot # rest)
          = binaryInsertionSort cmp (take left front @ [pivot] @ drop left front) rest"
    by (simp only: binaryInsertionSort.simps Let_def left_def)
  then have "mset (binaryInsertionSort cmp front (pivot # rest))
          = mset (take left front @ [pivot] @ drop left front) + mset rest"
    by (simp only: Cons.IH)
  then show ?case by (simp only: mset_insert_at) simp
qed

lemma mset_array_sort:
  assumes "\<And>ys r. mset (mergeRuns cmp ys r) = mset ys"
  shows "mset (array_sort mergeRuns cmp xs) = mset xs"
proof -
  obtain r ys where cr: "countAndMakeRun cmp xs = (r, ys)" by (cases "countAndMakeRun cmp xs")
  then have ys: "mset ys = mset xs" using mset_countAndMakeRun [of cmp xs] by simp
  have "mset (take r ys) + mset (drop r ys) = mset ys" by (simp flip: mset_append)
  then have "mset (binaryInsertionSort cmp (take r ys) (drop r ys)) = mset xs"
    by (simp only: mset_binaryInsertionSort ys)
  then show ?thesis
    using ys assms by (simp add: array_sort_def cr)
qed

subsection \<open>The maps over the ranking\<close>

lemma length_addRank: "length (addRank st xs) = length xs"
  by (simp add: addRank_def)

lemma nth_addRank:
  "i < length xs \<Longrightarrow> addRank st xs ! i =
     scored.extend (xs ! i) (ranked.fields (Suc i)
       (toFixed 6 (js_div (js_sub (performance (xs ! i)) (minPerformance st))
                          (js_sub (maxPerformance st) (minPerformance st)))) False)"
  by (simp add: addRank_def nth_enumerate_eq Let_def)

lemma length_findDominated: "length (findDominated rs) = length rs"
  by (simp add: findDominated_def)

lemma nth_findDominated:
  "i < length rs \<Longrightarrow> findDominated rs ! i =
     (rs ! i)\<lparr>dominated := dominatedLoop i (rs ! i) (enumerate 0 rs)\<rparr>"
  by (simp add: findDominated_def nth_enumerate_eq)

lemma length_applyHide: "length (applyHide h rs) = length rs"
  by (simp add: applyHide_def)

lemma nth_applyHide:
  "i < length rs \<Longrightarrow> applyHide h rs ! i =
     (if rank (rs ! i) \<in> set h then (rs ! i)\<lparr>showClusterMember := False\<rparr> else rs ! i)"
  by (simp add: applyHide_def)

lemma dominatedLoop_iff:
  "dominatedLoop i v (enumerate k xs) \<longleftrightarrow> (\<exists>j<length xs. k + j \<noteq> i \<and> dominates (xs ! j) v)"
proof (induction xs arbitrary: k)
  case Nil
  then show ?case by simp
next
  case (Cons x xs)
  have "(\<exists>j<length (x # xs). k + j \<noteq> i \<and> dominates ((x # xs) ! j) v)
        \<longleftrightarrow> (k \<noteq> i \<and> dominates x v) \<or> (\<exists>j<length xs. Suc k + j \<noteq> i \<and> dominates (xs ! j) v)"
    by (auto simp: less_Suc_eq_0_disj)
  then show ?case using Cons.IH [of "Suc k"] by auto
qed

subsection \<open>What the scoring of a validator returns\<close>

lemma scoreValidator_eraLoop:
  assumes "scoreValidator ch cfg tv st v = Inr (s, st')"
  shows "eraLoop ch cfg v (stashId v) (of_nat (prefs_commission v) / 10000000) (erasPoints ch)
           ([], [], 0, Num 0)
         = Inr (eraPointsHistory s, payoutHistory s, activeEras s, performance s)"
  using assms
  by (auto simp: scoreValidator_def Let_def split: sum.splits prod.splits)

lemma scoreValidator_copied:
  assumes "scoreValidator ch cfg tv st v = Inr (s, st')"
  shows "stashAddress s = stashId v"
    and "active s = v_active v"
    and "includedThousandValidators s = list_ex (\<lambda>stash. stash = stashId v) tv"
    and "commissionHistory s = getCommissionHistory (accountId v) (erasPreferences ch)"
    and "commission s = of_nat (prefs_commission v) / 10000000"
    and "showClusterMember s = True"
    and "(clusterName s, clusterMembers s)
           = getClusterInfo (subIdentity (v_identity v)) (validators_all ch) (v_identity v)"
  using assms
  by (auto simp: scoreValidator_def Let_def parseIdentity_def split: sum.splits prod.splits)

lemma scoreValidator_state:
  assumes "scoreValidator ch cfg tv st v = Inr (s, st')"
  shows "clusters st' = (if clusterName s \<noteq> [] \<and> clusterName s \<notin> set (clusters st)
                         then clusters st @ [clusterName s] else clusters st)"
    and "maxPerformance st' = (if js_gt (performance s) (maxPerformance st)
                               then performance s else maxPerformance st)"
    and "minPerformance st' = (if js_lt (performance s) (minPerformance st)
                               then performance s else minPerformance st)"
  using assms
  by (auto simp: scoreValidator_def Let_def split: sum.splits prod.splits)

lemma scoreValidator_rating_eqs:
  assumes "scoreValidator ch cfg tv st v = Inr (s, st')"
  shows "totalRating s = activeRating s + addressCreationRating s + identityRating s
           + subAccountsRating s + nominatorsRating s + commissionRating s + eraPointsRating s
           + slashRating s + governanceRating s + payoutRating s"
    and "activeRating s = (if active s then 2 else 0)"
    and "subAccountsRating s = (if hasSubIdentity s then 2 else 0)"
    and "nominatorsRating s =
           (if nominators s > 0 \<and> nominators s \<le> maxNominatorRewardedPerValidator ch then 2 else 0)"
    and "eraPointsRating s =
           (if js_gt (Num (of_nat (foldl (\<lambda>total era. total + pt_points era) 0 (eraPointsHistory s))))
                     (eraPointsAverage ch) then 2 else 0)"
    and "slashRating s = (if slashed s then 0 else 2)"
    and "governanceRating s =
           (if councilBacking s \<and> activeInGovernance s then 3
            else if councilBacking s \<or> activeInGovernance s then 2 else 0)"
    and "commissionRating s = getCommissionRating (commission s) (commissionHistory s)"
    and "payoutRating s = getPayoutRating (payoutHistory s) cfg"
    and "identityRating s = getIdentityRating (name s) (verifiedIdentity s)
           (truthy (display (v_identity v)) \<and> truthy (legal (v_identity v))
            \<and> truthy (web (v_identity v)) \<and> truthy (email (v_identity v))
            \<and> truthy (twitter (v_identity v)) \<and> truthy (riot (v_identity v)))"
    and "addressCreationRating s =
           addressCreationBand
             (case parent (v_identity v) of
                Some p \<Rightarrow> (if js_gt (stashParentCreatedAtBlock s) (stashCreatedAtBlock s)
                           then stashCreatedAtBlock s else stashParentCreatedAtBlock s)
              | None \<Rightarrow> stashCreatedAtBlock s)
             (block_number ch)"
  using assms
  by (auto simp: scoreValidator_def Let_def parseIdentity_def split: sum.splits prod.splits option.splits)

lemma getCommissionRating_range: "getCommissionRating c h \<in> {0, 1, 2, 3}"
  by (simp add: getCommissionRating_def)

lemma getPayoutRating_range: "getPayoutRating ph cfg \<in> {0, 1, 2, 3}"
  by (simp add: getPayoutRating_def Let_def)

lemma getIdentityRating_range: "getIdentityRating n ver af \<in> {0, 1, 2, 3}"
  by (simp add: getIdentityRating_def)

lemma addressCreationBand_range: "addressCreationBand b h \<in> {0, 1, 2, 3}"
  by (simp add: addressCreationBand_def)

lemma scoreValidator_rating_ranges:
  assumes "scoreValidator ch cfg tv st v = Inr (s, st')"
  shows "activeRating s \<in> {0, 2}"
    and "subAccountsRating s \<in> {0, 2}"
    and "nominatorsRating s \<in> {0, 2}"
    and "eraPointsRating s \<in> {0, 2}"
    and "slashRating s \<in> {0, 2}"
    and "governanceRating s \<in> {0, 2, 3}"
    and "addressCreationRating s \<in> {0, 1, 2, 3}"
    and "identityRating s \<in> {0, 1, 2, 3}"
    and "commissionRating s \<in> {0, 1, 2, 3}"
    and "payoutRating s \<in> {0, 1, 2, 3}"
proof -
  note eqs = scoreValidator_rating_eqs [OF assms]
  show "activeRating s \<in> {0, 2}" by (simp add: eqs(2))
  show "subAccountsRating s \<in> {0, 2}" by (simp add: eqs(3))
  show "nominatorsRating s \<in> {0, 2}" by (simp add: eqs(4))
  show "eraPointsRating s \<in> {0, 2}" by (simp add: eqs(5))
  show "slashRating s \<in> {0, 2}" by (simp add: eqs(6))
  show "governanceRating s \<in> {0, 2, 3}" by (simp add: eqs(7))
  show "addressCreationRating s \<in> {0, 1, 2, 3}"
    by (simp only: eqs(11) addressCreationBand_range)
  show "identityRating s \<in> {0, 1, 2, 3}"
    by (simp only: eqs(10) getIdentityRating_range)
  show "commissionRating s \<in> {0, 1, 2, 3}"
    by (simp only: eqs(8) getCommissionRating_range)
  show "payoutRating s \<in> {0, 1, 2, 3}"
    by (simp only: eqs(9) getPayoutRating_range)
qed

subsection \<open>The scoring of all validators\<close>

lemma scoreAll_Cons_Inr:
  assumes "scoreAll ch cfg tv st (v # vs) = Inr (ss, st'')"
  obtains s st' ss' where "scoreValidator ch cfg tv st v = Inr (s, st')"
    and "scoreAll ch cfg tv st' vs = Inr (ss', st'')" and "ss = s # ss'"
  using assms by (auto split: sum.splits prod.splits)

lemma scoreAll_elem:
  assumes "scoreAll ch cfg tv st vs = Inr (ss, st')" and "s \<in> set ss"
  shows "\<exists>v\<in>set vs. \<exists>sa sb. scoreValidator ch cfg tv sa v = Inr (s, sb)"
  using assms
proof (induction vs arbitrary: st ss)
  case Nil
  then show ?case by simp
next
  case (Cons v vs)
  from Cons.prems(1) obtain s0 st1 ss' where
    s0: "scoreValidator ch cfg tv st v = Inr (s0, st1)"
    and rest: "scoreAll ch cfg tv st1 vs = Inr (ss', st')" and ss: "ss = s0 # ss'"
    by (rule scoreAll_Cons_Inr)
  show ?case
  proof (cases "s = s0")
    case True
    with s0 show ?thesis by auto
  next
    case False
    with Cons.prems(2) ss have "s \<in> set ss'" by simp
    from Cons.IH [OF rest this] show ?thesis by auto
  qed
qed

lemma scoreAll_state:
  assumes "scoreAll ch cfg tv st vs = Inr (ss, st')"
  shows "maxPerformance st' = foldl maxStep (maxPerformance st) (map performance ss)
       \<and> minPerformance st' = foldl minStep (minPerformance st) (map performance ss)"
  using assms
proof (induction vs arbitrary: st ss)
  case Nil
  then show ?case by simp
next
  case (Cons v vs)
  from Cons.prems obtain s0 st1 ss' where
    s0: "scoreValidator ch cfg tv st v = Inr (s0, st1)"
    and rest: "scoreAll ch cfg tv st1 vs = Inr (ss', st')" and ss: "ss = s0 # ss'"
    by (rule scoreAll_Cons_Inr)
  from Cons.IH [OF rest] scoreValidator_state(2,3) [OF s0] ss
  show ?case by (simp add: maxStep_def minStep_def)
qed

subsection \<open>The ranking as a whole\<close>

lemma produceRanking_Inr:
  assumes "produceRanking mergeRuns shuffle response ch cfg = Inr R"
  obtains ss st h where
    "scoreAll ch cfg (getThousandValidators response)
       \<lparr>clusters = [], maxPerformance = Num 0, minPerformance = Num 0\<rparr> (validators_all ch)
     = Inr (ss, st)"
    and "hideLoop shuffle (findDominated (addRank st (array_sort mergeRuns rankingCompare ss)))
           (clusters st) [] = Inr h"
    and "R = applyHide h (findDominated (addRank st (array_sort mergeRuns rankingCompare ss)))"
  using assms
  by (auto simp: produceRanking_def Let_def split: sum.splits prod.splits)

text \<open>An element of the final ranking, in terms of the element of the sorted array at
  the same position.\<close>

lemma final_nth:
  fixes st :: run_state and h :: "nat list" and xs :: "scored list"
  assumes "i < length xs"
  defines "A \<equiv> addRank st xs"
  defines "R \<equiv> applyHide h (findDominated A)"
  shows "scored.truncate (R ! i) = (xs ! i)\<lparr>showClusterMember := showClusterMember (R ! i)\<rparr>"
    and "rank (R ! i) = Suc i"
    and "relativePerformance (R ! i) =
           toFixed 6 (js_div (js_sub (performance (xs ! i)) (minPerformance st))
                             (js_sub (maxPerformance st) (minPerformance st)))"
    and "dominated (R ! i) = dominatedLoop i (A ! i) (enumerate 0 A)"
    and "relativePerformance (R ! i) = relativePerformance (A ! i)"
    and "selfStake (R ! i) = selfStake (A ! i)"
    and "activeEras (R ! i) = activeEras (A ! i)"
    and "totalRating (R ! i) = totalRating (A ! i)"
  using assms(1)
  by (simp_all add: R_def A_def nth_applyHide nth_findDominated nth_addRank
        length_addRank length_findDominated scored.truncate_def scored.extend_def ranked.fields_def)

lemma length_final:
  "length (applyHide h (findDominated (addRank st xs))) = length xs"
  by (simp add: length_applyHide length_findDominated length_addRank)

lemma produceRanking_elem:
  assumes run: "produceRanking mergeRuns shuffle response ch cfg = Inr R"
    and perm: "\<forall>ys r. mset (mergeRuns rankingCompare ys r) = mset ys"
    and v: "v \<in> set R"
  shows "\<exists>w\<in>set (validators_all ch). \<exists>s sa sb.
           scoreValidator ch cfg (getThousandValidators response) sa w = Inr (s, sb)
           \<and> scored.truncate v = s\<lparr>showClusterMember := showClusterMember v\<rparr>"
proof -
  from run obtain ss st h where
    all: "scoreAll ch cfg (getThousandValidators response)
       \<lparr>clusters = [], maxPerformance = Num 0, minPerformance = Num 0\<rparr> (validators_all ch)
     = Inr (ss, st)"
    and R: "R = applyHide h (findDominated (addRank st (array_sort mergeRuns rankingCompare ss)))"
    by (rule produceRanking_Inr)
  define xs where "xs = array_sort mergeRuns rankingCompare ss"
  have "mset xs = mset ss" unfolding xs_def using perm by (intro mset_array_sort) simp
  then have set: "set xs = set ss" by (rule mset_eq_setD)
  from v obtain i where i: "i < length R" and vi: "v = R ! i" by (auto simp: in_set_conv_nth)
  from i have ix: "i < length xs" by (simp add: R xs_def length_final)
  have tr: "scored.truncate v = (xs ! i)\<lparr>showClusterMember := showClusterMember v\<rparr>"
    unfolding vi R using final_nth(1) [OF ix, of h st] by (simp add: xs_def)
  from ix set have "xs ! i \<in> set ss" by (metis nth_mem)
  from scoreAll_elem [OF all this] tr show ?thesis by auto
qed

section \<open>Rounding and the extremes of the performance\<close>

lemma toFixed_rat_unit:
  assumes "0 \<le> x" and "x \<le> 1"
  shows "0 \<le> toFixed_rat 6 x" and "toFixed_rat 6 x \<le> 1"
proof -
  have small: "\<not> 10 ^ 21 \<le> \<bar>x\<bar>" using assms by simp
  have "0 \<le> x * 10 ^ 6 + 1 / 2" using assms by simp
  then have f0: "0 \<le> \<lfloor>x * 10 ^ 6 + 1 / 2\<rfloor>" by simp
  have "x * 10 ^ 6 + 1 / 2 < 10 ^ 6 + 1" using assms by simp
  then have "\<lfloor>x * 10 ^ 6 + 1 / 2\<rfloor> < 10 ^ 6 + 1" by (simp add: floor_less_iff)
  then have f1: "\<lfloor>x * 10 ^ 6 + 1 / 2\<rfloor> \<le> 10 ^ 6" by simp
  have val: "toFixed_rat 6 x = sgn x * (of_int \<lfloor>x * 10 ^ 6 + 1 / 2\<rfloor> / 10 ^ 6)"
    using small assms by (simp add: toFixed_rat_def)
  have q0: "(0::rat) \<le> of_int \<lfloor>x * 10 ^ 6 + 1 / 2\<rfloor> / 10 ^ 6" using f0 by simp
  have "(of_int \<lfloor>x * 10 ^ 6 + 1 / 2\<rfloor> :: rat) \<le> 10 ^ 6" using f1 by (metis of_int_le_iff of_int_numeral of_int_power)
  then have q1: "(of_int \<lfloor>x * 10 ^ 6 + 1 / 2\<rfloor> :: rat) / 10 ^ 6 \<le> 1" by simp
  show "0 \<le> toFixed_rat 6 x"
    unfolding val using q0 assms(1) by (cases "x = 0") (simp_all add: sgn_if)
  show "toFixed_rat 6 x \<le> 1"
    unfolding val using q1 assms(1) by (cases "x = 0") (simp_all add: sgn_if)
qed

lemma toFixed_rat_one: "toFixed_rat 6 1 = 1"
proof -
  have "\<lfloor>(2000001::rat) / 2\<rfloor> = 1000000" by linarith
  then show ?thesis by (simp add: toFixed_rat_def)
qed

lemma toFixed_rat_zero: "toFixed_rat 6 0 = 0"
  by (simp add: toFixed_rat_def)

lemma toFixed_rat_half: "toFixed_rat 6 (1 / 2) = 1 / 2"
proof -
  have "\<lfloor>(1000001::rat) / 2\<rfloor> = 500000" by linarith
  then show ?thesis by (simp add: toFixed_rat_def)
qed

lemma foldl_minStep_zero:
  assumes "\<forall>x\<in>set ps. \<exists>p. x = Num p \<and> 0 \<le> p"
  shows "foldl minStep (Num 0) ps = Num 0"
  using assms by (induction ps) (auto simp: minStep_def)

lemma foldl_maxStep_Num:
  assumes "\<forall>x\<in>set ps. \<exists>p. x = Num p"
  shows "\<exists>m. foldl maxStep (Num m0) ps = Num m \<and> m0 \<le> m
            \<and> (\<forall>p. Num p \<in> set ps \<longrightarrow> p \<le> m) \<and> (m = m0 \<or> Num m \<in> set ps)"
  using assms
proof (induction ps arbitrary: m0)
  case Nil
  then show ?case by simp
next
  case (Cons x ps)
  then obtain p where x: "x = Num p" by auto
  define m1 where "m1 = (if m0 < p then p else m0)"
  have step: "maxStep (Num m0) x = Num m1" by (simp add: maxStep_def js_gt_def x m1_def)
  from Cons.prems have "\<forall>x\<in>set ps. \<exists>p. x = Num p" by simp
  from Cons.IH [OF this, of m1] obtain m where
    m: "foldl maxStep (Num m1) ps = Num m" "m1 \<le> m"
       "\<forall>p. Num p \<in> set ps \<longrightarrow> p \<le> m" "m = m1 \<or> Num m \<in> set ps"
    by blast
  have "foldl maxStep (Num m0) (x # ps) = Num m" using step m(1) by simp
  moreover have "m0 \<le> m" using m(2) by (simp add: m1_def split: if_splits)
  moreover have "\<forall>q. Num q \<in> set (x # ps) \<longrightarrow> q \<le> m"
    using m(2,3) x by (auto simp: m1_def split: if_splits)
  moreover have "m = m0 \<or> Num m \<in> set (x # ps)"
    using m(4) x by (auto simp: m1_def split: if_splits)
  ultimately show ?case by blast
qed

lemma truncate_performance:
  assumes "scored.truncate (v::ranked) = s\<lparr>showClusterMember := b\<rparr>"
  shows "performance v = performance s"
  using arg_cong [OF assms, of performance] by (simp add: scored.truncate_def)

text \<open>The performances of the ranking and the relative performance of each of its
  elements, in terms of the scored validators and the extremes.\<close>

lemma produceRanking_performance:
  assumes run: "produceRanking mergeRuns shuffle response ch cfg = Inr R"
    and perm: "\<forall>ys r. mset (mergeRuns rankingCompare ys r) = mset ys"
  shows "\<exists>ps. set ps = performance ` set R
      \<and> (\<forall>v\<in>set R. relativePerformance v =
            toFixed 6 (js_div (js_sub (performance v) (foldl minStep (Num 0) ps))
                              (js_sub (foldl maxStep (Num 0) ps) (foldl minStep (Num 0) ps))))"
proof -
  from run obtain ss st h where
    all: "scoreAll ch cfg (getThousandValidators response)
       \<lparr>clusters = [], maxPerformance = Num 0, minPerformance = Num 0\<rparr> (validators_all ch)
     = Inr (ss, st)"
    and R: "R = applyHide h (findDominated (addRank st (array_sort mergeRuns rankingCompare ss)))"
    by (rule produceRanking_Inr)
  define xs where "xs = array_sort mergeRuns rankingCompare ss"
  define ps where "ps = map performance ss"
  have "mset xs = mset ss" unfolding xs_def using perm by (intro mset_array_sort) simp
  then have set: "set xs = set ss" by (rule mset_eq_setD)
  have len: "length R = length xs" by (simp add: R xs_def length_final)
  have st: "maxPerformance st = foldl maxStep (Num 0) ps" "minPerformance st = foldl minStep (Num 0) ps"
    using scoreAll_state [OF all] by (simp_all add: ps_def)
  have nth: "performance (R ! i) = performance (xs ! i)
      \<and> relativePerformance (R ! i) =
           toFixed 6 (js_div (js_sub (performance (R ! i)) (foldl minStep (Num 0) ps))
                             (js_sub (foldl maxStep (Num 0) ps) (foldl minStep (Num 0) ps)))"
    if "i < length xs" for i
  proof -
    have p: "performance (R ! i) = performance (xs ! i)"
      using final_nth(1) [OF that, of h st] unfolding R xs_def by (rule truncate_performance)
    show ?thesis
      using final_nth(3) [OF that, of h st] p unfolding R xs_def st by simp
  qed
  have "performance ` set R = performance ` set xs"
  proof -
    have "map performance R = map performance xs"
      using nth len by (simp add: list_eq_iff_nth_eq)
    then have "set (map performance R) = set (map performance xs)" by simp
    then show ?thesis by simp
  qed
  then have "set ps = performance ` set R" by (simp add: ps_def set)
  moreover have "\<forall>v\<in>set R. relativePerformance v =
            toFixed 6 (js_div (js_sub (performance v) (foldl minStep (Num 0) ps))
                              (js_sub (foldl maxStep (Num 0) ps) (foldl minStep (Num 0) ps)))"
    using nth len by (auto simp: in_set_conv_nth)
  ultimately show ?thesis by blast
qed

lemma relative_performance_range:
  assumes run: "produceRanking mergeRuns shuffle response ch cfg = Inr R"
    and perm: "\<forall>ys r. mset (mergeRuns rankingCompare ys r) = mset ys"
    and fin: "\<forall>v\<in>set R. \<exists>p. performance v = Num p \<and> 0 \<le> p"
  shows "((\<exists>v\<in>set R. performance v \<noteq> Num 0) \<longrightarrow>
            (\<forall>v\<in>set R. \<exists>r. relativePerformance v = Num r \<and> 0 \<le> r \<and> r \<le> 1
               \<and> (performance v = Num 0 \<longrightarrow> r = 0)
               \<and> ((\<forall>w\<in>set R. js_le (performance w) (performance v)) \<longrightarrow> r = 1)))
       \<and> ((\<forall>v\<in>set R. performance v = Num 0) \<longrightarrow> (\<forall>v\<in>set R. relativePerformance v = NaN))"
proof -
  from produceRanking_performance [OF run perm] obtain ps where
    ps: "set ps = performance ` set R"
    and rel: "\<forall>v\<in>set R. relativePerformance v =
            toFixed 6 (js_div (js_sub (performance v) (foldl minStep (Num 0) ps))
                              (js_sub (foldl maxStep (Num 0) ps) (foldl minStep (Num 0) ps)))"
    by blast
  have allnum: "\<forall>x\<in>set ps. \<exists>p. x = Num p \<and> 0 \<le> p" using fin ps by auto
  then have mn: "foldl minStep (Num 0) ps = Num 0" by (rule foldl_minStep_zero)
  from allnum have "\<forall>x\<in>set ps. \<exists>p. x = Num p" by blast
  from foldl_maxStep_Num [OF this, of 0] obtain m where
    mx: "foldl maxStep (Num 0) ps = Num m" and m0: "0 \<le> m"
    and ub: "\<forall>p. Num p \<in> set ps \<longrightarrow> p \<le> m" and att: "m = 0 \<or> Num m \<in> set ps"
    by blast
  have relv: "relativePerformance v = toFixed 6 (js_div (Num p) (Num m))"
    if "v \<in> set R" "performance v = Num p" for v p
    using rel that by (simp add: mn mx js_sub_def)
  have part1: "\<exists>r. relativePerformance v = Num r \<and> 0 \<le> r \<and> r \<le> 1
               \<and> (performance v = Num 0 \<longrightarrow> r = 0)
               \<and> ((\<forall>w\<in>set R. js_le (performance w) (performance v)) \<longrightarrow> r = 1)"
    if some: "\<exists>v\<in>set R. performance v \<noteq> Num 0" and v: "v \<in> set R" for v
  proof -
    from some fin obtain u q where u: "u \<in> set R" "performance u = Num q" "0 < q"
      by (metis less_le)
    then have "Num q \<in> set ps" using ps by (metis image_eqI)
    with ub u(3) have mpos: "0 < m" by fastforce
    from fin v obtain p where p: "performance v = Num p" "0 \<le> p" by blast
    then have "Num p \<in> set ps" using ps v by (metis image_eqI)
    with ub have pm: "p \<le> m" by blast
    have q: "0 \<le> p / m" "p / m \<le> 1" using p(2) pm mpos by simp_all
    have val: "relativePerformance v = Num (toFixed_rat 6 (p / m))"
      using relv [OF v p(1)] mpos by simp
    have top: "toFixed_rat 6 (p / m) = 1" if mx: "\<forall>w\<in>set R. js_le (performance w) (performance v)"
    proof -
      from att mpos have "Num m \<in> set ps" by simp
      then obtain w where w: "w \<in> set R" "performance w = Num m" using ps by auto
      with mx p(1) have "m \<le> p" by (auto simp: js_le_def)
      with pm have "p / m = 1" using mpos by simp
      then show ?thesis by (simp add: toFixed_rat_one)
    qed
    have bottom: "toFixed_rat 6 (p / m) = 0" if "performance v = Num 0"
      using that p(1) by (simp add: toFixed_rat_def)
    show ?thesis using val toFixed_rat_unit [OF q] top bottom by blast
  qed
  have part2: "relativePerformance v = NaN"
    if zero: "\<forall>v\<in>set R. performance v = Num 0" and v: "v \<in> set R" for v
  proof -
    have "m = 0"
    proof (rule ccontr)
      assume "m \<noteq> 0"
      with att have "Num m \<in> set ps" by simp
      then obtain w where "w \<in> set R" "performance w = Num m" using ps by auto
      with zero \<open>m \<noteq> 0\<close> show False by auto
    qed
    with relv [OF v] zero v show ?thesis by simp
  qed
  show ?thesis using part1 part2 by blast
qed

subsection \<open>No performance is negative\<close>

lemma js_add_not_negative:
  "\<not> js_lt x (Num 0) \<Longrightarrow> \<not> js_lt y (Num 0) \<Longrightarrow> \<not> js_lt (js_add x y) (Num 0)"
  by (cases x; cases y) auto

lemma bignumber_div_not_negative:
  assumes "0 \<le> x" and "0 < y"
  shows "\<exists>b. bignumber_div x y = Num b \<and> 0 \<le> b"
proof -
  have q: "0 \<le> x / y" using assms by simp
  then have "0 \<le> \<bar>x / y\<bar> * 10 ^ 20 + 1 / 2" by simp
  then have "0 \<le> \<lfloor>\<bar>x / y\<bar> * 10 ^ 20 + 1 / 2\<rfloor>" by simp
  then have "(0::rat) \<le> of_int \<lfloor>\<bar>x / y\<bar> * 10 ^ 20 + 1 / 2\<rfloor> / 10 ^ 20" by simp
  moreover have "0 \<le> sgn (x / y)" using q by (simp add: sgn_if)
  ultimately have "0 \<le> sgn (x / y) * (of_int \<lfloor>\<bar>x / y\<bar> * 10 ^ 20 + 1 / 2\<rfloor> / 10 ^ 20)"
    by (intro mult_nonneg_nonneg)
  moreover from assms(2) have "y \<noteq> 0" by simp
  then have "bignumber_div x y
      = Num (sgn (x / y) * (of_int \<lfloor>\<bar>x / y\<bar> * 10 ^ 20 + 1 / 2\<rfloor> / 10 ^ 20))"
    by (simp only: bignumber_div_def if_False)
  ultimately show ?thesis by blast
qed

lemma era_performance_not_negative:
  assumes "0 \<le> a" and "0 \<le> x" and "0 < y"
  shows "\<not> js_lt (js_div (Num a) (bignumber_div x y)) (Num 0)"
proof -
  from bignumber_div_not_negative [OF assms(2,3)] obtain b where
    b: "bignumber_div x y = Num b" "0 \<le> b" by blast
  have "0 \<le> a / b" using assms(1) b(2) by simp
  then have "\<not> a / b < 0" by simp
  then show ?thesis using assms(1) by (simp add: b(1))
qed

lemma eraLoop_not_negative:
  assumes "eraLoop ch cfg v a c eras (eph, ph, ae, perf0) = Inr (eph', ph', ae', perf)"
    and "\<not> js_lt perf0 (Num 0)" and "c \<le> 100"
  shows "\<not> js_lt perf (Num 0)"
  using assms(1,2)
proof (induction eras arbitrary: eph ph ae perf0)
  case Nil
  then show ?case by auto
next
  case (Cons e eras)
  show ?case
  proof (cases "ept_validators e a")
    case None
    with Cons.prems(1) have
      "eraLoop ch cfg v a c eras
         (eph @ [\<lparr>pt_era = ept_era e, pt_points = 0\<rparr>],
          ph @ [\<lparr>po_era = ept_era e, po_status = Inactive\<rparr>], ae, js_add perf0 (Num 0))
       = Inr (eph', ph', ae', perf)"
      by (simp add: Let_def)
    moreover have "\<not> js_lt (js_add perf0 (Num 0)) (Num 0)"
      using Cons.prems(2) by (intro js_add_not_negative) simp_all
    ultimately show ?thesis by (rule Cons.IH)
  next
    case (Some points)
    from Some Cons.prems(1) obtain x where
      x: "find (\<lambda>eraExposure. ee_era eraExposure = ept_era e) (erasExposure ch) = Some x"
      by (cases "find (\<lambda>eraExposure. ee_era eraExposure = ept_era e) (erasExposure ch)")
         (simp_all add: Let_def)
    from Some x Cons.prems(1) obtain t where t: "ee_validators x a = Some t"
      by (cases "ee_validators x a") (simp_all add: Let_def)
    define perf1 where "perf1 = js_add perf0
      (js_div (Num (of_nat points * (1 - c / 100)))
              (bignumber_div (of_nat t) (10 ^ tokenDecimals cfg)))"
    have "0 \<le> of_nat points * (1 - c / 100)" using assms(3) by simp
    then have "\<not> js_lt (js_div (Num (of_nat points * (1 - c / 100)))
              (bignumber_div (of_nat t) (10 ^ tokenDecimals cfg))) (Num 0)"
      by (intro era_performance_not_negative) simp_all
    with Cons.prems(2) have nn: "\<not> js_lt perf1 (Num 0)"
      unfolding perf1_def by (rule js_add_not_negative)
    from Some x t Cons.prems(1) have
      "\<exists>eph1 ph1. eraLoop ch cfg v a c eras (eph1, ph1, ae + 1, perf1)
         = Inr (eph', ph', ae', perf)"
      by (auto simp: Let_def perf1_def)
    then obtain eph1 ph1 where
      "eraLoop ch cfg v a c eras (eph1, ph1, ae + 1, perf1) = Inr (eph', ph', ae', perf)"
      by blast
    from this nn show ?thesis by (rule Cons.IH)
  qed
qed

lemma eraLoop_eras:
  assumes "eraLoop ch cfg v a c eras (eph, ph, ae, perf) = Inr (eph', ph', ae', perf')"
  shows "map pt_era eph' = map pt_era eph @ map ept_era eras
       \<and> map po_era ph' = map po_era ph @ map ept_era eras"
  using assms
proof (induction eras arbitrary: eph ph ae perf)
  case Nil
  then show ?case by simp
next
  case (Cons e eras)
  show ?case
  proof (cases "ept_validators e a")
    case None
    with Cons.prems have
      "eraLoop ch cfg v a c eras
         (eph @ [\<lparr>pt_era = ept_era e, pt_points = 0\<rparr>],
          ph @ [\<lparr>po_era = ept_era e, po_status = Inactive\<rparr>], ae, js_add perf (Num 0))
       = Inr (eph', ph', ae', perf')"
      by (simp add: Let_def)
    from Cons.IH [OF this] show ?thesis by simp
  next
    case (Some points)
    with Cons.prems have
      "\<exists>st pf. eraLoop ch cfg v a c eras
         (eph @ [\<lparr>pt_era = ept_era e, pt_points = points\<rparr>],
          ph @ [\<lparr>po_era = ept_era e, po_status = st\<rparr>], ae + 1, pf)
       = Inr (eph', ph', ae', perf')"
      by (auto simp: Let_def split: option.splits)
    then obtain st pf where
      "eraLoop ch cfg v a c eras
         (eph @ [\<lparr>pt_era = ept_era e, pt_points = points\<rparr>],
          ph @ [\<lparr>po_era = ept_era e, po_status = st\<rparr>], ae + 1, pf)
       = Inr (eph', ph', ae', perf')"
      by blast
    from Cons.IH [OF this] show ?thesis by simp
  qed
qed

lemma getCommissionHistory_foldl:
  "map ce_era (foldl (\<lambda>commissionHistory p.
        (case ep_validators p a of
           Some c \<Rightarrow> commissionHistory @
             [\<lparr>ce_era = ep_era p, ce_commission = Some (toFixed_rat 2 (of_nat c / 10000000))\<rparr>]
         | None \<Rightarrow> commissionHistory @
             [\<lparr>ce_era = ep_era p, ce_commission = None\<rparr>])) acc prefs)
   = map ce_era acc @ map ep_era prefs"
  by (induction prefs arbitrary: acc) (auto split: option.splits)

lemma getCommissionHistory_eras:
  "map ce_era (getCommissionHistory a prefs) = map ep_era prefs"
  unfolding getCommissionHistory_def by (simp only: getCommissionHistory_foldl) simp

lemma length_eraIndexes:
  "length (eraIndexes historic cfg) = min (historySize cfg) (length historic)"
  by (auto simp: eraIndexes_def)

lemma truncate_ratings:
  assumes tr: "scored.truncate (v::ranked) = s\<lparr>showClusterMember := b\<rparr>"
  shows "totalRating v = totalRating s"
    and "activeRating v = activeRating s"
    and "addressCreationRating v = addressCreationRating s"
    and "identityRating v = identityRating s"
    and "subAccountsRating v = subAccountsRating s"
    and "nominatorsRating v = nominatorsRating s"
    and "commissionRating v = commissionRating s"
    and "eraPointsRating v = eraPointsRating s"
    and "slashRating v = slashRating s"
    and "governanceRating v = governanceRating s"
    and "payoutRating v = payoutRating s"
  using arg_cong [OF tr, of totalRating] arg_cong [OF tr, of activeRating]
    arg_cong [OF tr, of addressCreationRating] arg_cong [OF tr, of identityRating]
    arg_cong [OF tr, of subAccountsRating] arg_cong [OF tr, of nominatorsRating]
    arg_cong [OF tr, of commissionRating] arg_cong [OF tr, of eraPointsRating]
    arg_cong [OF tr, of slashRating] arg_cong [OF tr, of governanceRating]
    arg_cong [OF tr, of payoutRating]
  by (simp_all add: scored.truncate_def)

lemma truncate_histories:
  assumes tr: "scored.truncate (v::ranked) = s\<lparr>showClusterMember := b\<rparr>"
  shows "eraPointsHistory v = eraPointsHistory s"
    and "payoutHistory v = payoutHistory s"
    and "commissionHistory v = commissionHistory s"
    and "includedThousandValidators v = includedThousandValidators s"
  using arg_cong [OF tr, of eraPointsHistory] arg_cong [OF tr, of payoutHistory]
    arg_cong [OF tr, of commissionHistory] arg_cong [OF tr, of includedThousandValidators]
  by (simp_all add: scored.truncate_def)

lemma js_ge_refl: "x \<noteq> NaN \<Longrightarrow> js_ge x x"
  by (cases x) (simp_all add: js_ge_def js_le_def)


section \<open>The examples, evaluated\<close>

lemma bignumber_div_10_1: "bignumber_div 10 1 = Num 10"
proof -
  have "\<lfloor>(2000000000000000000001 :: rat) / 2\<rfloor> = 1000000000000000000000" by linarith
  then show ?thesis by (simp add: bignumber_div_def)
qed

lemma bignumber_div_unit: "bignumber_div 1000000000000000000000 1000000000000000000000 = Num 1"
proof -
  have "\<lfloor>(200000000000000000001 :: rat) / 2\<rfloor> = 100000000000000000000" by linarith
  then show ?thesis by (simp add: bignumber_div_def)
qed

lemma bignumber_div_dust: "bignumber_div 1 1000000000000000000000 = Num 0"
proof -
  have "\<lfloor>(3 :: rat) / 5\<rfloor> = 0" by linarith
  then show ?thesis by (simp add: bignumber_div_def)
qed

lemmas example_defs = emptyChain_def cfg0_def mkValidator_def noIdentity_def
  keepRuns_def keepOrder_def reverseOrder_def

lemmas run_defs = produceRanking_def
    validators_all_def validators_active_def intentions_def scoreValidator_def Let_def createdAtBlock_def
    addressCreationBand_def js_le_def js_gt_def parseIdentity_def isVerifiedIdentity_def subIdentity_def getName_def
    getIdentityRating_def getClusterInfo_def getCommissionHistory_def getCommissionRating_def
    participateInGovernance_def eraPointsHistoryTotalsSum_def eraPointsAverage_def numActiveValidators_def
    getPayoutRating_def array_sort_def rankingCompare_def addRank_def findDominated_def applyHide_def
    scored.extend_def ranked.fields_def enumerate_eq_zip dominates_def js_sub_def js_ge_def
    getRandom_def slice0_def showCount_def replace_trailing_digits_def replace_trailing_char_def is_digit_def
    js_gt_object_never toFixed_rat_zero toFixed_rat_one toFixed_rat_half
    bignumber_div_10_1 bignumber_div_unit bignumber_div_dust

lemma map_sum_InrD: "map_sum id (map f) x = Inr ys \<Longrightarrow> \<exists>R. x = Inr R \<and> map f R = ys"
  by (cases x) auto

lemma tie_eval:
  "map_sum id (map stashAddress) (produceRanking keepRuns keepOrder Failed tieChain cfg0) = Inr [''B'', ''A'']"
  "map_sum id (map rank) (produceRanking keepRuns keepOrder Failed tieChain cfg0) = Inr [1, 2]"
  "map_sum id (map totalRating) (produceRanking keepRuns keepOrder Failed tieChain cfg0) = Inr [7, 7]"
  "map_sum id (map relativePerformance) (produceRanking keepRuns keepOrder Failed tieChain cfg0) = Inr [NaN, NaN]"
  "map_sum id (map selfStake) (produceRanking keepRuns keepOrder Failed tieChain cfg0) = Inr [1, 1]"
  "map_sum id (map activeEras) (produceRanking keepRuns keepOrder Failed tieChain cfg0) = Inr [0, 0]"
  "map_sum id (map dominated) (produceRanking keepRuns keepOrder Failed tieChain cfg0) = Inr [False, False]"
  by (simp_all add: tieChain_def example_defs run_defs)

lemma alice_eval:
  "map_sum id (map stashAddress) (produceRanking keepRuns keepOrder Failed aliceChain cfg0) = Inr [''B'', ''A'']"
  "map_sum id (map clusterName) (produceRanking keepRuns keepOrder Failed aliceChain cfg0) = Inr [''Alice'', ''Alice'']"
  "map_sum id (map clusterMembers) (produceRanking keepRuns keepOrder Failed aliceChain cfg0) = Inr [1, 1]"
  "map_sum id (map showClusterMember) (produceRanking keepRuns keepOrder Failed aliceChain cfg0) = Inr [False, True]"
  "map_sum id (map showClusterMember) (produceRanking keepRuns reverseOrder Failed aliceChain cfg0) = Inr [True, False]"
  by (simp_all add: aliceChain_def example_defs run_defs)

lemma perf_eval:
  "map_sum id (map stashAddress) (produceRanking keepRuns keepOrder Failed perfChain cfg0) = Inr [''Y'', ''X'']"
  "map_sum id (map performance) (produceRanking keepRuns keepOrder Failed perfChain cfg0) = Inr [Num 2, Num 1]"
  "map_sum id (map totalRating) (produceRanking keepRuns keepOrder Failed perfChain cfg0) = Inr [10, 8]"
  by (simp_all add: perfChain_def example_defs run_defs)

lemma perf_rel_eval:
  "map_sum id (map relativePerformance) (produceRanking keepRuns keepOrder Failed perfChain cfg0)
     = Inr [Num 1, Num (1 / 2)]"
  by (simp add: perfChain_def example_defs run_defs)

lemma twin_eval:
  "map_sum id (map relativePerformance) (produceRanking keepRuns keepOrder Failed twinChain cfg0)
     = Inr [Num 1, Num 1]"
  "map_sum id (map selfStake) (produceRanking keepRuns keepOrder Failed twinChain cfg0) = Inr [1, 1]"
  "map_sum id (map activeEras) (produceRanking keepRuns keepOrder Failed twinChain cfg0) = Inr [1, 1]"
  "map_sum id (map totalRating) (produceRanking keepRuns keepOrder Failed twinChain cfg0) = Inr [8, 8]"
  by (simp_all add: twinChain_def perfChain_def example_defs run_defs)

lemma keepRuns_perm: "\<forall>ys r. mset (keepRuns cmp ys r) = mset ys"
  by (simp add: keepRuns_def)

lemma map_eq_twoD:
  assumes "map f R = [a, b]"
  shows "length R = 2" and "f (R ! 0) = a" and "f (R ! 1) = b" and "R ! 0 \<in> set R" and "R ! 1 \<in> set R"
proof -
  from assms obtain x y where R: "R = [x, y]" by (auto simp: map_eq_Cons_conv)
  with assms show "length R = 2" "f (R ! 0) = a" "f (R ! 1) = b" "R ! 0 \<in> set R" "R ! 1 \<in> set R"
    by simp_all
qed

lemma perfChain_run:
  "\<exists>R. produceRanking keepRuns keepOrder Failed perfChain cfg0 = Inr R
      \<and> map performance R = [Num 2, Num 1]"
  using perf_eval(2) by (rule map_sum_InrD)

lemma map_sum_InrD2: "x = Inr R \<Longrightarrow> map_sum id (map f) x = Inr ys \<Longrightarrow> map f R = ys"
  by simp

lemma tie_performance:
  "map_sum id (map performance) (produceRanking keepRuns keepOrder Failed tieChain cfg0)
     = Inr [Num 0, Num 0]"
  by (simp add: tieChain_def example_defs run_defs)

lemma set_two: "length R = 2 \<Longrightarrow> set R = {R ! 0, R ! 1}"
  by (auto simp: in_set_conv_nth less_Suc_eq numeral_2_eq_2)

lemma anchor_eval:
  "map_sum id (map stashAddress) (produceRanking keepRuns keepOrder Failed anchorChain cfg0) = Inr [''X'', ''Z'']"
  "map_sum id (map performance) (produceRanking keepRuns keepOrder Failed anchorChain cfg0) = Inr [Num 1, Num 0]"
  "map_sum id (map relativePerformance) (produceRanking keepRuns keepOrder Failed anchorChain cfg0) = Inr [Num 1, Num 0]"
  by (simp_all add: anchorChain_def perfChain_def example_defs run_defs)

lemma dust_eval:
  "map_sum id (map stashAddress) (produceRanking keepRuns keepOrder Failed dustChain cfg21) = Inr [''Y'', ''X'']"
  "map_sum id (map performance) (produceRanking keepRuns keepOrder Failed dustChain cfg21) = Inr [Num 20, PosInf]"
  "map_sum id (map relativePerformance) (produceRanking keepRuns keepOrder Failed dustChain cfg21) = Inr [Num 0, NaN]"
  by (simp_all add: dustChain_def cfg21_def perfChain_def example_defs run_defs)

lemma surcharge_eval:
  "map_sum id (map stashAddress) (produceRanking keepRuns keepOrder Failed surchargeChain cfg0) = Inr [''X'', ''Y'']"
  "map_sum id (map performance) (produceRanking keepRuns keepOrder Failed surchargeChain cfg0) = Inr [Num (- 2), Num 0]"
  "map_sum id (map relativePerformance) (produceRanking keepRuns keepOrder Failed surchargeChain cfg0) = Inr [Num 0, Num 1]"
  by (simp_all add: surchargeChain_def perfChain_def example_defs run_defs)

lemma example_commissions:
  "\<forall>w\<in>set (validators_all anchorChain). prefs_commission w \<le> 1000000000"
  "\<forall>w\<in>set (validators_all tieChain). prefs_commission w \<le> 1000000000"
  by (auto simp: anchorChain_def perfChain_def tieChain_def example_defs validators_all_def
        validators_active_def intentions_def split: if_splits)

section \<open>The claims\<close>

text \<open>
  C2, as amended. Take a run in which no commission is above 100 per cent and every
  performance is a finite number. No performance is negative then, and \<open>minPerformance\<close>,
  which starts at 0, stays 0. If some performance is not 0, then for every validator of
  the ranking the relative performance is a number between 0 and 1; it is 0 for a
  validator whose performance is 0; and it is 1 for a validator whose performance is the
  greatest, when the performances are not all equal. If every performance is 0, the
  relative performance of every validator is NaN.
\<close>

theorem relative_performance_of_run:
  assumes run: "produceRanking mergeRuns shuffle response ch cfg = Inr R"
    and perm: "\<forall>ys r. mset (mergeRuns rankingCompare ys r) = mset ys"
    and comm: "\<forall>w\<in>set (validators_all ch). prefs_commission w \<le> 1000000000"
    and fin: "\<forall>v\<in>set R. \<exists>p. performance v = Num p"
  shows "((\<exists>v\<in>set R. performance v \<noteq> Num 0) \<longrightarrow>
            (\<forall>v\<in>set R. \<exists>r. relativePerformance v = Num r \<and> 0 \<le> r \<and> r \<le> 1
               \<and> (performance v = Num 0 \<longrightarrow> r = 0)
               \<and> ((\<forall>w\<in>set R. js_le (performance w) (performance v))
                    \<and> (\<exists>w\<in>set R. performance w \<noteq> performance v) \<longrightarrow> r = 1)))
       \<and> ((\<forall>v\<in>set R. performance v = Num 0) \<longrightarrow> (\<forall>v\<in>set R. relativePerformance v = NaN))"
proof -
  have "\<exists>p. performance v = Num p \<and> 0 \<le> p" if v: "v \<in> set R" for v
  proof -
    from produceRanking_elem [OF run perm v] obtain w s sa sb where
      w: "w \<in> set (validators_all ch)"
      and sc: "scoreValidator ch cfg (getThousandValidators response) sa w = Inr (s, sb)"
      and tr: "scored.truncate v = s\<lparr>showClusterMember := showClusterMember v\<rparr>"
      by blast
    from comm w have "(of_nat (prefs_commission w) :: rat) \<le> of_nat 1000000000"
      by (metis of_nat_le_iff)
    then have c: "(of_nat (prefs_commission w) :: rat) / 10000000 \<le> 100" by simp
    have z: "\<not> js_lt (Num 0) (Num 0)" by simp
    from eraLoop_not_negative [OF scoreValidator_eraLoop [OF sc] z c]
    have nn: "\<not> js_lt (performance v) (Num 0)" by (simp add: truncate_performance [OF tr])
    from fin v obtain p where p: "performance v = Num p" by blast
    with nn show ?thesis by simp
  qed
  then have "\<forall>v\<in>set R. \<exists>p. performance v = Num p \<and> 0 \<le> p" by blast
  from relative_performance_range [OF run perm this]
  have some: "(\<exists>v\<in>set R. performance v \<noteq> Num 0) \<longrightarrow>
            (\<forall>v\<in>set R. \<exists>r. relativePerformance v = Num r \<and> 0 \<le> r \<and> r \<le> 1
               \<and> (performance v = Num 0 \<longrightarrow> r = 0)
               \<and> ((\<forall>w\<in>set R. js_le (performance w) (performance v)) \<longrightarrow> r = 1))"
    and none: "(\<forall>v\<in>set R. performance v = Num 0) \<longrightarrow> (\<forall>v\<in>set R. relativePerformance v = NaN)"
    by simp_all
  have "\<exists>r. relativePerformance v = Num r \<and> 0 \<le> r \<and> r \<le> 1
          \<and> (performance v = Num 0 \<longrightarrow> r = 0)
          \<and> ((\<forall>w\<in>set R. js_le (performance w) (performance v))
               \<and> (\<exists>w\<in>set R. performance w \<noteq> performance v) \<longrightarrow> r = 1)"
    if nz: "\<exists>v\<in>set R. performance v \<noteq> Num 0" and v: "v \<in> set R" for v
  proof -
    from some nz v obtain r where r: "relativePerformance v = Num r" "0 \<le> r" "r \<le> 1"
      "performance v = Num 0 \<longrightarrow> r = 0"
      "(\<forall>w\<in>set R. js_le (performance w) (performance v)) \<longrightarrow> r = 1"
      by blast
    then show ?thesis by blast
  qed
  with none show ?thesis by blast
qed

theorem relative_performance_of_run_witness:
  "(\<exists>R v w. produceRanking keepRuns keepOrder Failed anchorChain cfg0 = Inr R
        \<and> v \<in> set R \<and> performance v = Num 1 \<and> relativePerformance v = Num 1
        \<and> w \<in> set R \<and> performance w = Num 0 \<and> relativePerformance w = Num 0)
 \<and> (\<exists>R v. produceRanking keepRuns keepOrder Failed tieChain cfg0 = Inr R \<and> v \<in> set R
        \<and> performance v = Num 0 \<and> relativePerformance v = NaN)"
proof -
  have perm: "\<forall>ys r. mset (keepRuns rankingCompare ys r) = mset ys" by (rule keepRuns_perm)
  from map_sum_InrD [OF anchor_eval(2)] obtain R where
    R: "produceRanking keepRuns keepOrder Failed anchorChain cfg0 = Inr R"
    and p: "map performance R = [Num 1, Num 0]" by auto
  note two = map_eq_twoD [OF p]
  note set = set_two [OF two(1)]
  have fin: "\<forall>v\<in>set R. \<exists>p. performance v = Num p" using two(2,3) by (simp add: set)
  have "performance (R ! 0) \<noteq> Num 0" using two(2) by simp
  with two(4) have some: "\<exists>v\<in>set R. performance v \<noteq> Num 0" by blast
  have top: "\<forall>w\<in>set R. js_le (performance w) (performance (R ! 0))"
    using two(2,3) by (simp add: set js_le_def)
  have "performance (R ! 1) \<noteq> performance (R ! 0)" using two(2,3) by simp
  with two(5) have other: "\<exists>w\<in>set R. performance w \<noteq> performance (R ! 0)" by blast
  note all = relative_performance_of_run [OF R perm example_commissions(1) fin,
      THEN conjunct1, rule_format, OF some]
  from all [OF two(4)] obtain r where r: "relativePerformance (R ! 0) = Num r"
    and "(\<forall>w\<in>set R. js_le (performance w) (performance (R ! 0)))
          \<and> (\<exists>w\<in>set R. performance w \<noteq> performance (R ! 0)) \<longrightarrow> r = 1"
    by blast
  with top other have "r = 1" by blast
  with r have one: "relativePerformance (R ! 0) = Num 1" by simp
  from all [OF two(5)] obtain q where q: "relativePerformance (R ! 1) = Num q"
    and "performance (R ! 1) = Num 0 \<longrightarrow> q = 0"
    by blast
  with two(3) have "q = 0" by blast
  with q have nought: "relativePerformance (R ! 1) = Num 0" by simp
  from R two(2,3,4,5) one nought
  have first: "\<exists>R v w. produceRanking keepRuns keepOrder Failed anchorChain cfg0 = Inr R
        \<and> v \<in> set R \<and> performance v = Num 1 \<and> relativePerformance v = Num 1
        \<and> w \<in> set R \<and> performance w = Num 0 \<and> relativePerformance w = Num 0" by blast
  from map_sum_InrD [OF tie_performance] obtain T where
    T: "produceRanking keepRuns keepOrder Failed tieChain cfg0 = Inr T"
    and perfT: "map performance T = [Num 0, Num 0]" by auto
  note twoT = map_eq_twoD [OF perfT]
  note setT = set_two [OF twoT(1)]
  have zero: "\<forall>v\<in>set T. performance v = Num 0" using twoT(2,3) by (simp add: setT)
  then have finT: "\<forall>v\<in>set T. \<exists>p. performance v = Num p" by simp
  from relative_performance_of_run [OF T perm example_commissions(2) finT] zero twoT(4)
  have "relativePerformance (T ! 0) = NaN" by blast
  with T twoT(2,4) have second: "\<exists>R v. produceRanking keepRuns keepOrder Failed tieChain cfg0 = Inr R
        \<and> v \<in> set R \<and> performance v = Num 0 \<and> relativePerformance v = NaN" by blast
  from first second show ?thesis by simp
qed

text \<open>
  The claim C2 as it is written fails twice. With performances 1 and 2 the validator of
  least performance has the relative performance 0.5, not 0. With two validators of
  performance 0, all performances are equal and the relative performance is NaN.

  The two hypotheses of the amended claim are needed. With a token of 21 decimals and a
  total stake of one unit, the stake rounds to 0 and the performance of X is Infinity: its
  relative performance is NaN, though the performance of Y is not 0. With a commission of
  200 per cent the performance of X is -2, and Y, whose performance is 0, has the
  relative performance 1.
\<close>

theorem relative_performance_counterexample:
  "map_sum id (map performance) (produceRanking keepRuns keepOrder Failed perfChain cfg0)
     = Inr [Num 2, Num 1]
 \<and> map_sum id (map relativePerformance) (produceRanking keepRuns keepOrder Failed perfChain cfg0)
     = Inr [Num 1, Num (1 / 2)]
 \<and> map_sum id (map performance) (produceRanking keepRuns keepOrder Failed tieChain cfg0)
     = Inr [Num 0, Num 0]
 \<and> map_sum id (map relativePerformance) (produceRanking keepRuns keepOrder Failed tieChain cfg0)
     = Inr [NaN, NaN]
 \<and> map_sum id (map performance) (produceRanking keepRuns keepOrder Failed dustChain cfg21)
     = Inr [Num 20, PosInf]
 \<and> map_sum id (map relativePerformance) (produceRanking keepRuns keepOrder Failed dustChain cfg21)
     = Inr [Num 0, NaN]
 \<and> map_sum id (map performance) (produceRanking keepRuns keepOrder Failed surchargeChain cfg0)
     = Inr [Num (- 2), Num 0]
 \<and> map_sum id (map relativePerformance) (produceRanking keepRuns keepOrder Failed surchargeChain cfg0)
     = Inr [Num 0, Num 1]"
  using perf_eval(2) perf_rel_eval tie_performance tie_eval(4) dust_eval(2,3) surcharge_eval(2,3)
  by simp

text \<open>
  C3. The claim: of a cluster of size \<open>k\<close> exactly \<open>k - show(k)\<close> members are hidden, and
  a validator with \<open>clusterMembers \<le> 1\<close> is never hidden. Two validators named
  \<open>Alice1\<close> and \<open>Alice2\<close> share no prefix of six characters, so each has
  \<open>clusterMembers = 1\<close>, and both have the cluster name \<open>Alice\<close>. For that name
  \<open>hide\<close> is \<open>1 - 2 = -1\<close>, \<open>slice(0, -1)\<close> keeps the first of the two shuffled ranks,
  and one of the two validators is hidden, whichever way the shuffle goes.
\<close>

theorem singleton_cluster_member_hidden:
  "map_sum id (map stashAddress) (produceRanking keepRuns keepOrder Failed aliceChain cfg0)
     = Inr [''B'', ''A'']
 \<and> map_sum id (map clusterName) (produceRanking keepRuns keepOrder Failed aliceChain cfg0)
     = Inr [''Alice'', ''Alice'']
 \<and> map_sum id (map clusterMembers) (produceRanking keepRuns keepOrder Failed aliceChain cfg0)
     = Inr [1, 1]
 \<and> map_sum id (map showClusterMember) (produceRanking keepRuns keepOrder Failed aliceChain cfg0)
     = Inr [False, True]
 \<and> map_sum id (map showClusterMember) (produceRanking keepRuns reverseOrder Failed aliceChain cfg0)
     = Inr [True, False]"
  using alice_eval by simp

text \<open>Two elements of equal rating leave the sort in reverse.\<close>

lemma array_sort_tie_pair:
  "totalRating a = totalRating b \<Longrightarrow> array_sort mergeRuns rankingCompare [a, b] = [b, a]"
  by (simp add: array_sort_def rankingCompare_def Let_def)

text \<open>
  C5. The claim: the ranking is in descending order of \<open>totalRating\<close> with ties in the
  order of the input, and \<open>rank\<close> counts from 1 in that order. The comparator answers
  \<open>-1\<close> for two equal ratings, never 0. For the validators A and B, in this order and
  both rated 7, the sort asks for \<open>comparefn(B, A)\<close>, takes the answer \<open>-1\<close> for a
  descending run and reverses it: B has rank 1 and A rank 2.
\<close>

theorem equal_ratings_rank_in_reverse:
  "map stashId (validators_all tieChain) = [''A'', ''B'']
 \<and> map_sum id (map stashAddress) (produceRanking keepRuns keepOrder Failed tieChain cfg0)
     = Inr [''B'', ''A'']
 \<and> map_sum id (map totalRating) (produceRanking keepRuns keepOrder Failed tieChain cfg0)
     = Inr [7, 7]
 \<and> map_sum id (map rank) (produceRanking keepRuns keepOrder Failed tieChain cfg0) = Inr [1, 2]"
  using tie_eval(1-3)
  by (simp add: tieChain_def example_defs validators_all_def validators_active_def intentions_def)

text \<open>
  C6, as amended. For every validator of the ranking, at position \<open>i\<close>: \<open>dominated\<close>
  is true exactly when at another position there is a validator whose relative
  performance, self stake, active eras and total rating are each greater or equal, where
  the comparison of the relative performances is the one of JavaScript numbers, false
  when one of them is NaN. Two validators at different positions that agree on all four
  and whose relative performance is not NaN are both dominated.
\<close>

theorem dominated_iff_weakly_worse:
  assumes run: "produceRanking mergeRuns shuffle response ch cfg = Inr R"
    and i: "i < length R"
  shows "(dominated (R ! i) \<longleftrightarrow>
            (\<exists>j<length R. j \<noteq> i
               \<and> js_ge (relativePerformance (R ! j)) (relativePerformance (R ! i))
               \<and> selfStake (R ! j) \<ge> selfStake (R ! i)
               \<and> activeEras (R ! j) \<ge> activeEras (R ! i)
               \<and> totalRating (R ! j) \<ge> totalRating (R ! i)))
       \<and> (\<forall>j<length R. j \<noteq> i
               \<and> relativePerformance (R ! j) = relativePerformance (R ! i)
               \<and> relativePerformance (R ! i) \<noteq> NaN
               \<and> selfStake (R ! j) = selfStake (R ! i)
               \<and> activeEras (R ! j) = activeEras (R ! i)
               \<and> totalRating (R ! j) = totalRating (R ! i)
             \<longrightarrow> dominated (R ! i) \<and> dominated (R ! j))"
proof -
  from run obtain ss st h where
    R: "R = applyHide h (findDominated (addRank st (array_sort mergeRuns rankingCompare ss)))"
    by (rule produceRanking_Inr)
  define xs where "xs = array_sort mergeRuns rankingCompare ss"
  define A where "A = addRank st xs"
  have len: "length R = length xs" "length A = length xs"
    by (simp_all add: R xs_def A_def length_final length_addRank)
  have dom: "dominated (R ! k) \<longleftrightarrow>
            (\<exists>j<length R. j \<noteq> k
               \<and> js_ge (relativePerformance (R ! j)) (relativePerformance (R ! k))
               \<and> selfStake (R ! j) \<ge> selfStake (R ! k)
               \<and> activeEras (R ! j) \<ge> activeEras (R ! k)
               \<and> totalRating (R ! j) \<ge> totalRating (R ! k))" if k: "k < length R" for k
  proof -
    from k have kx: "k < length xs" by (simp add: len)
    have f: "relativePerformance (R ! j) = relativePerformance (A ! j)"
        "selfStake (R ! j) = selfStake (A ! j)" "activeEras (R ! j) = activeEras (A ! j)"
        "totalRating (R ! j) = totalRating (A ! j)" if "j < length xs" for j
      using final_nth(5-8) [OF that, of h st] by (simp_all add: R xs_def A_def)
    have "dominated (R ! k) = dominatedLoop k (A ! k) (enumerate 0 A)"
      using final_nth(4) [OF kx, of h st] by (simp add: R xs_def A_def)
    also have "\<dots> \<longleftrightarrow> (\<exists>j<length A. j \<noteq> k \<and> dominates (A ! j) (A ! k))"
      by (simp add: dominatedLoop_iff)
    also have "\<dots> \<longleftrightarrow> (\<exists>j<length R. j \<noteq> k
               \<and> js_ge (relativePerformance (R ! j)) (relativePerformance (R ! k))
               \<and> selfStake (R ! j) \<ge> selfStake (R ! k)
               \<and> activeEras (R ! j) \<ge> activeEras (R ! k)
               \<and> totalRating (R ! j) \<ge> totalRating (R ! k))"
      using f kx by (auto simp: len dominates_def)
    finally show ?thesis .
  qed
  have tie: "dominated (R ! i) \<and> dominated (R ! j)"
    if "j < length R" "j \<noteq> i"
      "relativePerformance (R ! j) = relativePerformance (R ! i)"
      "relativePerformance (R ! i) \<noteq> NaN"
      "selfStake (R ! j) = selfStake (R ! i)"
      "activeEras (R ! j) = activeEras (R ! i)"
      "totalRating (R ! j) = totalRating (R ! i)" for j
  proof -
    have "js_ge (relativePerformance (R ! j)) (relativePerformance (R ! i))"
      "js_ge (relativePerformance (R ! i)) (relativePerformance (R ! j))"
      using that(3,4) by (simp_all add: js_ge_refl)
    with that i have "dominated (R ! i)" "dominated (R ! j)"
      using dom [OF i] dom [OF that(1)] by auto
    then show ?thesis by simp
  qed
  from dom [OF i] tie show ?thesis by blast
qed

theorem dominated_iff_weakly_worse_witness:
  "\<exists>R. produceRanking keepRuns keepOrder Failed twinChain cfg0 = Inr R \<and> length R = 2
     \<and> relativePerformance (R ! 1) = Num 1 \<and> relativePerformance (R ! 0) = Num 1
     \<and> selfStake (R ! 1) = selfStake (R ! 0)
     \<and> activeEras (R ! 1) = activeEras (R ! 0)
     \<and> totalRating (R ! 1) = totalRating (R ! 0)
     \<and> dominated (R ! 0) \<and> dominated (R ! 1)"
proof -
  from map_sum_InrD [OF twin_eval(1)] obtain R where
    R: "produceRanking keepRuns keepOrder Failed twinChain cfg0 = Inr R"
    and rp: "map relativePerformance R = [Num 1, Num 1]" by auto
  note r = map_eq_twoD [OF rp]
  note s = map_eq_twoD [OF map_sum_InrD2 [OF R twin_eval(2)]]
  note a = map_eq_twoD [OF map_sum_InrD2 [OF R twin_eval(3)]]
  note t = map_eq_twoD [OF map_sum_InrD2 [OF R twin_eval(4)]]
  have i: "(0::nat) < length R" and j: "(1::nat) < length R" using r(1) by simp_all
  have ne: "relativePerformance (R ! 0) \<noteq> NaN" using r(2) by simp
  note tie = dominated_iff_weakly_worse [OF R i, THEN conjunct2, rule_format, of 1]
  from tie j ne r(2,3) s(2,3) a(2,3) t(2,3)
  have "dominated (R ! 0) \<and> dominated (R ! 1)" by simp
  with R r s a t show ?thesis by (intro exI [of _ R] conjI) simp_all
qed

text \<open>
  The claim C6 as it is written fails for two validators without era points: both have
  the relative performance NaN, the self stake 1, no active era and the total rating 7,
  and neither is dominated.
\<close>

theorem dominated_counterexample:
  "map_sum id (map relativePerformance) (produceRanking keepRuns keepOrder Failed tieChain cfg0)
     = Inr [NaN, NaN]
 \<and> map_sum id (map selfStake) (produceRanking keepRuns keepOrder Failed tieChain cfg0) = Inr [1, 1]
 \<and> map_sum id (map activeEras) (produceRanking keepRuns keepOrder Failed tieChain cfg0) = Inr [0, 0]
 \<and> map_sum id (map totalRating) (produceRanking keepRuns keepOrder Failed tieChain cfg0) = Inr [7, 7]
 \<and> map_sum id (map dominated) (produceRanking keepRuns keepOrder Failed tieChain cfg0)
     = Inr [False, False]"
  using tie_eval(3-7) by simp

text \<open>
  C7. For every validator of the ranking, \<open>totalRating\<close> is the sum of the ten ratings,
  without any other term, and each rating lies in its range: \<open>activeRating\<close>,
  \<open>subAccountsRating\<close>, \<open>nominatorsRating\<close>, \<open>eraPointsRating\<close> and \<open>slashRating\<close> in
  \<open>{0, 2}\<close>, \<open>governanceRating\<close> in \<open>{0, 2, 3}\<close>, the other four in \<open>{0, 1, 2, 3}\<close>.
\<close>

theorem total_rating_is_sum_of_ratings:
  assumes run: "produceRanking mergeRuns shuffle response ch cfg = Inr R"
    and perm: "\<forall>ys r. mset (mergeRuns rankingCompare ys r) = mset ys"
    and v: "v \<in> set R"
  shows "totalRating v = activeRating v + addressCreationRating v + identityRating v
           + subAccountsRating v + nominatorsRating v + commissionRating v + eraPointsRating v
           + slashRating v + governanceRating v + payoutRating v
       \<and> activeRating v \<in> {0, 2} \<and> subAccountsRating v \<in> {0, 2}
       \<and> nominatorsRating v \<in> {0, 2} \<and> eraPointsRating v \<in> {0, 2}
       \<and> slashRating v \<in> {0, 2} \<and> governanceRating v \<in> {0, 2, 3}
       \<and> addressCreationRating v \<in> {0, 1, 2, 3} \<and> identityRating v \<in> {0, 1, 2, 3}
       \<and> commissionRating v \<in> {0, 1, 2, 3} \<and> payoutRating v \<in> {0, 1, 2, 3}"
proof -
  from produceRanking_elem [OF run perm v] obtain w s sa sb where
    sc: "scoreValidator ch cfg (getThousandValidators response) sa w = Inr (s, sb)"
    and tr: "scored.truncate v = s\<lparr>showClusterMember := showClusterMember v\<rparr>"
    by blast
  note eq = truncate_ratings [OF tr]
  note sum = scoreValidator_rating_eqs(1) [OF sc]
  note rg = scoreValidator_rating_ranges [OF sc]
  show ?thesis
    unfolding eq using sum rg by (intro conjI) assumption+
qed

theorem total_rating_is_sum_of_ratings_witness:
  "\<exists>R v. produceRanking keepRuns keepOrder Failed perfChain cfg0 = Inr R \<and> v \<in> set R
     \<and> totalRating v = activeRating v + addressCreationRating v + identityRating v
           + subAccountsRating v + nominatorsRating v + commissionRating v + eraPointsRating v
           + slashRating v + governanceRating v + payoutRating v
     \<and> activeRating v \<in> {0, 2} \<and> subAccountsRating v \<in> {0, 2}
     \<and> nominatorsRating v \<in> {0, 2} \<and> eraPointsRating v \<in> {0, 2}
     \<and> slashRating v \<in> {0, 2} \<and> governanceRating v \<in> {0, 2, 3}
     \<and> addressCreationRating v \<in> {0, 1, 2, 3} \<and> identityRating v \<in> {0, 1, 2, 3}
     \<and> commissionRating v \<in> {0, 1, 2, 3} \<and> payoutRating v \<in> {0, 1, 2, 3}"
proof -
  from perfChain_run obtain R where R: "produceRanking keepRuns keepOrder Failed perfChain cfg0 = Inr R"
    and p: "map performance R = [Num 2, Num 1]" by auto
  note v = map_eq_twoD(4) [OF p]
  from total_rating_is_sum_of_ratings [OF R keepRuns_perm v] R v
  show ?thesis by (intro exI [of _ R] exI [of _ "R ! 0"] conjI) simp_all
qed



lemma in_flight_alone:
  assumes "inFlight s + length (timers s) \<le> 1" and "0 < inFlight s"
  shows "timers s = []" and "inFlight s = 1"
  using assms by (cases "timers s"; simp)+

lemma step_invariant:
  assumes "inFlight s + length (timers s) \<le> 1" and "step cfg e s = Some s'"
  shows "inFlight s' + length (timers s') \<le> 1"
proof (cases e)
  case (Finish before outcome)
  with assms(2) have pos: "0 < inFlight s" by (simp split: if_splits)
  note alone = in_flight_alone [OF assms(1) pos]
  from Finish assms(2) pos show ?thesis
    by (auto simp: start_end_def alone split: option.splits body_outcome.splits sum.splits)
next
  case (Fire k)
  with assms show ?thesis by (auto split: if_splits)
next
  case (Tick d)
  with assms show ?thesis by auto
qed

text \<open>No two runs overlap: from the one call of \<open>start\<close>, at most one call is in flight,
  and no timer is pending beside it.\<close>

lemma steps_invariant:
  assumes "inFlight s + length (timers s) \<le> 1" and "steps cfg es s = Some s'"
  shows "inFlight s' + length (timers s') \<le> 1"
  using assms
proof (induction es arbitrary: s)
  case Nil
  then show ?case by simp
next
  case (Cons e es)
  from Cons.prems(2) obtain s1 where s1: "step cfg e s = Some s1" and rest: "steps cfg es s1 = Some s'"
    by (auto split: option.splits)
  from Cons.IH [OF step_invariant [OF Cons.prems(1) s1] rest] show ?case .
qed

text \<open>A call that passes the statements before \<open>try\<close>, and whose body finishes or throws
  something that \<open>JSON.stringify\<close> can write, returns and sets the one timer.\<close>

lemma start_end_rearms:
  assumes "outcome = Succeeded \<or> (\<exists>error text. outcome = Threw error \<and> JSON_stringify error = Inr text)"
  shows "start_end cfg None outcome s
       = (Returned, s\<lparr>inFlight := inFlight s - 1, timers := timers s @ [now s + pollingTime cfg]\<rparr>)"
  using assms by (auto simp: start_end_def)

text \<open>
  C9. The claim: whether the body succeeds or throws, the error never leaves the run and
  the next run is scheduled \<open>pollingTime\<close> later. The body throws an object with a
  reference cycle. In \<open>catch\<close> the message is built with \<open>JSON.stringify(error)\<close>, which
  throws a TypeError on such an object; nothing catches it, so the call of \<open>start\<close> is
  rejected with that TypeError and \<open>setTimeout\<close> is not reached: no timer is set, and
  after \<open>pollingTime\<close> there is no timer to fire. When the body throws an error object
  of the engine instead, the call returns and the timer fires.
\<close>

theorem start_rejects_when_logging_throws:
  "start_end cfg0 None (Threw CyclicObject) (started 0)
     = (Rejected (ErrorObject TypeError), \<lparr>now = 0, inFlight = 0, timers = []\<rparr>)
 \<and> steps cfg0 [Finish None (Threw CyclicObject), Tick 300000, Fire 0] (started 0) = None
 \<and> steps cfg0 [Finish None (Threw (ErrorObject TypeError)), Tick 300000, Fire 0] (started 0)
     = Some \<lparr>now = 300000, inFlight = 1, timers = []\<rparr>"
  by (simp add: started_def start_end_def cfg0_def)

lemma perfChain_window:
  "map ept_era (erasPoints perfChain) = eraIndexes (erasHistoric perfChain) cfg0"
  "map ep_era (erasPreferences perfChain) = eraIndexes (erasHistoric perfChain) cfg0"
  "eraIndexes (erasHistoric perfChain) cfg0 = [2, 3]"
  "min (historySize cfg0) (length (erasHistoric perfChain)) = 2"
  by (simp_all add: perfChain_def example_defs eraIndexes_def)

text \<open>
  C10. The chain API answers with one record of era points and one of preferences for
  each era of the window, in the order of the window. Then for every validator of the
  ranking, active or waiting, \<open>eraPointsHistory\<close>, \<open>payoutHistory\<close> and \<open>commissionHistory\<close>
  hold one entry for each era of the window, in the order of the window, so each has
  the length \<open>min(historySize, totalHistoric)\<close>.
\<close>

theorem histories_follow_era_window:
  assumes run: "produceRanking mergeRuns shuffle response ch cfg = Inr R"
    and perm: "\<forall>ys r. mset (mergeRuns rankingCompare ys r) = mset ys"
    and v: "v \<in> set R"
    and points: "map ept_era (erasPoints ch) = eraIndexes (erasHistoric ch) cfg"
    and prefs: "map ep_era (erasPreferences ch) = eraIndexes (erasHistoric ch) cfg"
  shows "map pt_era (eraPointsHistory v) = eraIndexes (erasHistoric ch) cfg
       \<and> map po_era (payoutHistory v) = eraIndexes (erasHistoric ch) cfg
       \<and> map ce_era (commissionHistory v) = eraIndexes (erasHistoric ch) cfg
       \<and> length (eraPointsHistory v) = min (historySize cfg) (length (erasHistoric ch))
       \<and> length (payoutHistory v) = min (historySize cfg) (length (erasHistoric ch))
       \<and> length (commissionHistory v) = min (historySize cfg) (length (erasHistoric ch))"
proof -
  from produceRanking_elem [OF run perm v] obtain w s sa sb where
    sc: "scoreValidator ch cfg (getThousandValidators response) sa w = Inr (s, sb)"
    and tr: "scored.truncate v = s\<lparr>showClusterMember := showClusterMember v\<rparr>"
    by blast
  note h = truncate_histories [OF tr]
  from eraLoop_eras [OF scoreValidator_eraLoop [OF sc]] points
  have e1: "map pt_era (eraPointsHistory v) = eraIndexes (erasHistoric ch) cfg"
    and e2: "map po_era (payoutHistory v) = eraIndexes (erasHistoric ch) cfg"
    by (simp_all add: h)
  have e3: "map ce_era (commissionHistory v) = eraIndexes (erasHistoric ch) cfg"
    by (simp add: h scoreValidator_copied(4) [OF sc] getCommissionHistory_eras prefs)
  have l1: "length (eraPointsHistory v) = min (historySize cfg) (length (erasHistoric ch))"
    using arg_cong [OF e1, of length] by (simp add: length_eraIndexes)
  have l2: "length (payoutHistory v) = min (historySize cfg) (length (erasHistoric ch))"
    using arg_cong [OF e2, of length] by (simp add: length_eraIndexes)
  have l3: "length (commissionHistory v) = min (historySize cfg) (length (erasHistoric ch))"
    using arg_cong [OF e3, of length] by (simp add: length_eraIndexes)
  from e1 e2 e3 l1 l2 l3 show ?thesis by simp
qed

theorem histories_follow_era_window_witness:
  "\<exists>R v. produceRanking keepRuns keepOrder Failed perfChain cfg0 = Inr R \<and> v \<in> set R
     \<and> map ept_era (erasPoints perfChain) = [2, 3]
     \<and> map ep_era (erasPreferences perfChain) = [2, 3]
     \<and> map pt_era (eraPointsHistory v) = [2, 3]
     \<and> map po_era (payoutHistory v) = [2, 3]
     \<and> map ce_era (commissionHistory v) = [2, 3]
     \<and> length (eraPointsHistory v) = 2
     \<and> length (payoutHistory v) = 2
     \<and> length (commissionHistory v) = 2"
proof -
  from perfChain_run obtain R where R: "produceRanking keepRuns keepOrder Failed perfChain cfg0 = Inr R"
    and p: "map performance R = [Num 2, Num 1]" by auto
  note v = map_eq_twoD(4) [OF p]
  from histories_follow_era_window [OF R keepRuns_perm v perfChain_window(1,2)] R v
  show ?thesis
    unfolding perfChain_window(3,4)
    by (intro exI [of _ R] exI [of _ "R ! 0"] conjI)
       (simp_all add: perfChain_window(1,2) [unfolded perfChain_window(3)])
qed

end
